theory Spec2Isabelle
  imports Complex_Main "HOL-Library.Word" "HOL-Library.Multiset"
begin

section \<open>Colour-blind safe palette extraction\<close>

text \<open>
  The repository is one Python function, \<open>extract_colorblind_safe_palette\<close>. Its arrays are
  modelled as lists and its colour triples as tuples. The clustering, the colour space
  conversion and the image library are not part of the repository: their results enter the
  model as arguments. The arithmetic of the function itself on which a size, a frequency or a
  byte of a colour depends is double precision arithmetic, each operation rounded by \<open>fl\<close>;
  the distances of the safety test, which are compared with a threshold and nothing else, are
  kept as real numbers.
\<close>

subsection \<open>Colours and the deficiency matrices\<close>

type_synonym rgb = "real \<times> real \<times> real"
type_synonym lab = "real \<times> real \<times> real"
type_synonym matrix = "rgb \<times> rgb \<times> rgb"

text \<open>The dictionary \<open>CB_MATRICES\<close>, in insertion order; each matrix is its three rows.\<close>

definition CB_MATRICES :: "(string \<times> matrix) list" where
  "CB_MATRICES =
     [(''protanopia'',
         ((0.56667, 0.43333, 0.0),
          (0.55833, 0.44167, 0.0),
          (0.0,     0.24167, 0.75833))),
      (''deuteranopia'',
         ((0.625, 0.375, 0.0),
          (0.70,  0.30,  0.0),
          (0.0,   0.30,  0.70))),
      (''tritanopia'',
         ((0.95,  0.05,    0.0),
          (0.0,   0.43333, 0.56667),
          (0.0,   0.475,   0.525)))]"

text \<open>\<open>CB_MATRICES.values()\<close>\<close>

definition cb_values :: "matrix list" where
  "cb_values = map snd CB_MATRICES"

definition dot3 :: "rgb \<Rightarrow> rgb \<Rightarrow> real" where
  "dot3 u v = (case u of (u0, u1, u2) \<Rightarrow> case v of (v0, v1, v2) \<Rightarrow> u0 * v0 + u1 * v1 + u2 * v2)"

text \<open>\<open>np.clip(x, 0, 1)\<close>\<close>

definition clip01 :: "real \<Rightarrow> real" where
  "clip01 x = min (max x 0) 1"

text \<open>
  \<open>simulate_cb(rgb, matrix) = np.clip(rgb @ matrix.T, 0, 1)\<close>: component \<open>k\<close> of
  \<open>rgb @ matrix.T\<close> is the product of \<open>rgb\<close> with row \<open>k\<close> of the matrix.
\<close>

definition simulate_cb :: "rgb \<Rightarrow> matrix \<Rightarrow> rgb" where
  "simulate_cb c m =
     (case m of (row0, row1, row2) \<Rightarrow>
        (clip01 (dot3 c row0), clip01 (dot3 c row1), clip01 (dot3 c row2)))"

text \<open>\<open>np.linalg.norm(a - b)\<close> on two triples.\<close>

definition norm_diff :: "lab \<Rightarrow> lab \<Rightarrow> real" where
  "norm_diff a b =
     (case a of (a0, a1, a2) \<Rightarrow> case b of (b0, b1, b2) \<Rightarrow>
        sqrt ((a0 - b0)\<^sup>2 + (a1 - b1)\<^sup>2 + (a2 - b2)\<^sup>2))"

subsection \<open>The safety test\<close>

text \<open>
  The loop over \<open>j\<close> (lines 116 to 121): the value is \<open>is_safe\<close> when the loop ends, which
  it does at the first \<open>j\<close> other than \<open>i\<close> whose distance to \<open>i\<close> is below the threshold.
\<close>

fun j_loop :: "lab list \<Rightarrow> real \<Rightarrow> nat \<Rightarrow> nat list \<Rightarrow> bool" where
  "j_loop sim_lab deltaE_thresh i [] = True"
| "j_loop sim_lab deltaE_thresh i (j # js) =
     (if i \<noteq> j \<and> norm_diff (sim_lab ! i) (sim_lab ! j) < deltaE_thresh then False
      else j_loop sim_lab deltaE_thresh i js)"

text \<open>
  The loop over the matrices (lines 112 to 123). \<open>to_lab\<close> is \<open>rgb2lab\<close>, the conversion of the imaging
  library, applied to each simulated colour.
\<close>

fun mat_loop :: "(rgb \<Rightarrow> lab) \<Rightarrow> real \<Rightarrow> rgb list \<Rightarrow> nat \<Rightarrow> matrix list \<Rightarrow> bool" where
  "mat_loop to_lab deltaE_thresh colors i [] = True"
| "mat_loop to_lab deltaE_thresh colors i (mat # mats) =
     (let sim_colors = map (\<lambda>c. simulate_cb c mat) colors;
          sim_lab = map to_lab sim_colors;
          is_safe = j_loop sim_lab deltaE_thresh i [0..<length sim_lab]
      in if \<not> is_safe then False else mat_loop to_lab deltaE_thresh colors i mats)"

text \<open>The loop over \<open>i\<close> (lines 108 to 125), appending one flag for each colour.\<close>

definition safe_flags :: "(rgb \<Rightarrow> lab) \<Rightarrow> real \<Rightarrow> rgb list \<Rightarrow> bool list" where
  "safe_flags to_lab deltaE_thresh colors =
     map (\<lambda>i. mat_loop to_lab deltaE_thresh colors i cb_values) [0..<length colors]"

subsection \<open>Double precision\<close>

text \<open>Rounding to the nearest integer, a tie to the even one (\<open>rint\<close>).\<close>

definition rint :: "real \<Rightarrow> int" where
  "rint x =
     (let f = \<lfloor>x\<rfloor>; d = x - of_int f
      in if d < 1 / 2 then f else if 1 / 2 < d then f + 1 else if even f then f else f + 1)"

text \<open>The binary exponent of a positive number: \<open>2 ^ fexp x \<le> x < 2 ^ (fexp x + 1)\<close>.\<close>

function fexp :: "real \<Rightarrow> int" where
  "fexp x =
     (if x \<le> 0 then 0
      else if x < 1 then fexp (2 * x) - 1
      else if 2 \<le> x then fexp (x / 2) + 1
      else 0)"
  by pat_completeness auto
termination
proof (relation "measure (\<lambda>x. if x < 1 then nat \<lceil>- log 2 x\<rceil> else nat \<lfloor>log 2 x\<rfloor>)")
  show "wf (measure (\<lambda>x::real. if x < 1 then nat \<lceil>- log 2 x\<rceil> else nat \<lfloor>log 2 x\<rfloor>))"
    by simp
next
  fix x :: real
  assume x: "\<not> x \<le> 0" "x < 1"
  then have l: "log 2 (2 * x) = 1 + log 2 x" "log 2 x < 0"
    by (simp_all add: log_mult)
  show "(2 * x, x) \<in> measure (\<lambda>x. if x < 1 then nat \<lceil>- log 2 x\<rceil> else nat \<lfloor>log 2 x\<rfloor>)"
  proof (cases "2 * x < 1")
    case True
    then have "log 2 (2 * x) < 0" using x by simp
    then have "1 < - log 2 x" using l by simp
    then have "1 < \<lceil>- log 2 x\<rceil>" by linarith
    moreover have "\<lceil>- log 2 (2 * x)\<rceil> = \<lceil>- log 2 x\<rceil> - 1"
      unfolding l(1) by linarith
    ultimately show ?thesis using True x by simp
  next
    case False
    then have "0 \<le> log 2 (2 * x)" using x by simp
    then have "0 \<le> 1 + log 2 x" "1 + log 2 x < 1" using l by simp_all
    then have "\<lfloor>1 + log 2 x\<rfloor> = 0" "\<lceil>- log 2 x\<rceil> = 1" by linarith+
    then show ?thesis using False x l by simp
  qed
next
  fix x :: real
  assume x: "\<not> x \<le> 0" "\<not> x < 1" "2 \<le> x"
  then have l: "log 2 (x / 2) = log 2 x - 1" "1 \<le> log 2 x"
    by (simp_all add: log_divide le_log_iff)
  then have "1 \<le> \<lfloor>log 2 x\<rfloor>" "\<lfloor>log 2 x - 1\<rfloor> = \<lfloor>log 2 x\<rfloor> - 1" by linarith+
  then show "(x / 2, x) \<in> measure (\<lambda>x. if x < 1 then nat \<lceil>- log 2 x\<rceil> else nat \<lfloor>log 2 x\<rfloor>)"
    using x l by simp
qed

text \<open>
  The double nearest to a real number, a tie to the even significand: \<open>x\<close> is rounded to a
  multiple of \<open>2 ^ (fexp \<bar>x\<bar> - 52)\<close>, which leaves 53 significant bits. (The exponent is not
  bounded: a double overflows above \<open>2 ^ 1024\<close> and loses bits below \<open>2 ^ - 1022\<close>, which no
  size, frequency or colour comes near.) The result of a double precision operation is \<open>fl\<close>
  of the exact result.
\<close>

definition fl :: "real \<Rightarrow> real" where
  "fl x = (let u = 2 powi (fexp \<bar>x\<bar> - 52) in of_int (rint (x / u)) * u)"

subsection \<open>Frequencies\<close>

text \<open>
  \<open>counts = Counter(labels)\<close>; a \<open>Counter\<close> gives 0 for a label that does not occur.
  Lines 99 and 100: the counts of the labels \<open>0, ..., n_colors - 1\<close>, each divided by their
  sum and then multiplied by 100, in double precision. (Where the sum is 0, numpy gives NaN
  and HOL gives 0: the theorems that speak of the value of a frequency assume that there is a
  label and that every label is below \<open>n_colors\<close>.)
\<close>

definition counts :: "nat list \<Rightarrow> nat \<Rightarrow> nat" where
  "counts labels i = count_list labels i"

definition freqs :: "nat \<Rightarrow> nat list \<Rightarrow> real list" where
  "freqs n_colors labels =
     (let fs = map (\<lambda>i. real (counts labels i)) [0..<n_colors];
          total = sum_list fs
      in map (\<lambda>f. fl (fl (f / total) * 100)) fs)"

subsection \<open>Formatting the entries\<close>

text \<open>\<open>astype(int)\<close> drops the fractional part (towards zero).\<close>

definition astype_int :: "real \<Rightarrow> int" where
  "astype_int x = (if 0 \<le> x then \<lfloor>x\<rfloor> else \<lceil>x\<rceil>)"

text \<open>
  \<open>round(f, 1)\<close> on a numpy float: multiply by 10, round to the nearest integer, divide by
  10, each in double precision.
\<close>

definition round1 :: "real \<Rightarrow> real" where
  "round1 f = fl (of_int (rint (fl (f * 10))) / 10)"

definition hex_digit :: "nat \<Rightarrow> char" where
  "hex_digit d = ''0123456789ABCDEF'' ! d"

fun to_hex :: "nat \<Rightarrow> string" where
  "to_hex n = (if n < 16 then [hex_digit n] else to_hex (n div 16) @ [hex_digit (n mod 16)])"

text \<open>
  The format \<open>{:02X}\<close>: upper case hexadecimal digits, after the sign if there is one, filled
  with zeros up to a width of 2.
\<close>

definition format_02X :: "int \<Rightarrow> string" where
  "format_02X n =
     (let sign = (if n < 0 then ''-'' else []);
          digits = to_hex (nat \<bar>n\<bar>)
      in sign @ replicate (2 - length sign - length digits) (CHR ''0'') @ digits)"

record entry =
  hex :: string
  rgb :: "int \<times> int \<times> int"
  frequency :: real
  colorblind_safe :: bool

text \<open>
  The body of the loop in lines 131 to 139; \<open>rgb * 255\<close> is a double precision product.
\<close>

definition make_entry :: "rgb \<Rightarrow> real \<Rightarrow> bool \<Rightarrow> entry" where
  "make_entry c f safe =
     (case c of (r, g, b) \<Rightarrow>
        let rgb255 = (astype_int (fl (r * 255)), astype_int (fl (g * 255)),
                      astype_int (fl (b * 255)));
            hexcol = (case rgb255 of (r', g', b') \<Rightarrow>
                        ''#'' @ format_02X r' @ format_02X g' @ format_02X b')
        in \<lparr>hex = hexcol, rgb = rgb255, frequency = round1 f, colorblind_safe = safe\<rparr>)"

text \<open>\<open>zip(colors, freqs, safe_flags)\<close> stops with the shortest of the three.\<close>

definition format_results :: "rgb list \<Rightarrow> real list \<Rightarrow> bool list \<Rightarrow> entry list" where
  "format_results colors fs flags =
     map (\<lambda>(c, f, safe). make_entry c f safe) (zip colors (zip fs flags))"

text \<open>
  Lines 98 to 141, from the labels and the centres that the clustering returned to the
  sorted list \<open>results\<close>. \<open>list.sort\<close> is stable, and so is \<open>sort_key\<close>.
\<close>

definition palette_results :: "(rgb \<Rightarrow> lab) \<Rightarrow> nat \<Rightarrow> real \<Rightarrow> nat list \<Rightarrow> rgb list \<Rightarrow> entry list" where
  "palette_results to_lab n_colors deltaE_thresh labels colors =
     sort_key (\<lambda>x. - frequency x)
       (format_results colors (freqs n_colors labels) (safe_flags to_lab deltaE_thresh colors))"

subsection \<open>Resizing\<close>

text \<open>
  Lines 83 to 86: the size that the image is resized to, if it is resized. The quotient
  \<open>scale\<close> and the products \<open>w * scale\<close> and \<open>h * scale\<close> are double precision, and \<open>int\<close>
  drops the fractional part. \<open>max(w, h)\<close> is 0 only for an image without pixels, and the
  division raises then.
\<close>

datatype py_error =
    FileNotFoundError | UnidentifiedImageError | ZeroDivisionError | ValueError
  | OSError | RuntimeError

definition new_size :: "nat \<Rightarrow> nat \<Rightarrow> real \<Rightarrow> py_error + (int \<times> int) option" where
  "new_size w h resize =
     (if max w h = 0 then Inl ZeroDivisionError
      else let scale = fl (resize / real (max w h))
           in if scale < 1
              then Inr (Some (astype_int (fl (real w * scale)), astype_int (fl (real h * scale))))
              else Inr None)"

subsection \<open>Paths\<close>

text \<open>\<open>os.path.basename\<close>, \<open>dirname\<close>, \<open>splitext\<close> and \<open>join\<close>, with \<open>/\<close> as the separator.\<close>

definition basename :: "string \<Rightarrow> string" where
  "basename p = rev (takeWhile (\<lambda>c. c \<noteq> CHR ''/'') (rev p))"

definition dirname :: "string \<Rightarrow> string" where
  "dirname p =
     (let head = rev (dropWhile (\<lambda>c. c \<noteq> CHR ''/'') (rev p))
      in if head \<noteq> [] \<and> \<not> list_all (\<lambda>c. c = CHR ''/'') head
         then rev (dropWhile (\<lambda>c. c = CHR ''/'') (rev head)) else head)"

definition splitext :: "string \<Rightarrow> string \<times> string" where
  "splitext p =
     (let name = basename p;
          ext = rev (takeWhile (\<lambda>c. c \<noteq> CHR ''.'') (rev name));
          stem = take (length name - length ext - 1) name
      in if CHR ''.'' \<in> set name \<and> \<not> list_all (\<lambda>c. c = CHR ''.'') stem
         then (take (length p - length ext - 1) p, CHR ''.'' # ext) else (p, []))"

definition path_join :: "string \<Rightarrow> string \<Rightarrow> string" where
  "path_join a b =
     (if b \<noteq> [] \<and> hd b = CHR ''/'' then b
      else if a = [] \<or> last a = CHR ''/'' then a @ b
      else a @ ''/'' @ b)"

subsection \<open>Files, libraries and arguments\<close>

text \<open>
  An image after \<open>convert("RGB")\<close>: its size \<open>(w, h)\<close> and its pixels, three bytes each.
\<close>

record image =
  img_size :: "nat \<times> nat"
  img_data :: "(8 word \<times> 8 word \<times> 8 word) list"

text \<open>
  The table that is printed and written is kept as what it is made of: the path of the
  image, \<open>n_colors\<close> and the entries, one row each.
\<close>

type_synonym summary = "string \<times> nat \<times> entry list"

datatype file_content = ImageFile image | TextFile summary

record world =
  fs :: "string \<Rightarrow> file_content option"
  writable :: "string \<Rightarrow> bool"
  console :: "summary list"

text \<open>
  The libraries that the function calls: \<open>Image.resize\<close>, \<open>KMeans(n_clusters, n_init,
  random_state).fit_predict\<close> with \<open>cluster_centers_\<close>, \<open>rgb2lab\<close>, the drawing of the figure
  (from \<open>plt.subplots\<close> to \<open>plt.tight_layout\<close>) and \<open>plt.show\<close>. Each may raise.
\<close>

record env =
  img_resize :: "image \<Rightarrow> int \<times> int \<Rightarrow> py_error + image"
  KMeans :: "nat \<Rightarrow> nat \<Rightarrow> nat \<Rightarrow> rgb list \<Rightarrow> py_error + nat list \<times> rgb list"
  rgb2lab :: "rgb \<Rightarrow> lab"
  plt_draw :: "image \<Rightarrow> entry list \<Rightarrow> py_error + image"
  plt_show :: "image \<Rightarrow> py_error option"

record args =
  image_path :: string
  n_colors :: nat
  deltaE_thresh :: real
  resize :: real
  plot :: bool
  save :: bool
  outdir :: "string option"

text \<open>\<open>Image.open(image_path).convert("RGB")\<close>\<close>

definition Image_open :: "world \<Rightarrow> string \<Rightarrow> py_error + image" where
  "Image_open w p =
     (case fs w p of
        None \<Rightarrow> Inl FileNotFoundError
      | Some (ImageFile img) \<Rightarrow> Inr img
      | Some (TextFile t) \<Rightarrow> Inl UnidentifiedImageError)"

text \<open>Opening a file for writing, and writing it.\<close>

definition write_file :: "world \<Rightarrow> string \<Rightarrow> file_content \<Rightarrow> py_error + world" where
  "write_file w p f = (if writable w p then Inr (w\<lparr>fs := (fs w)(p \<mapsto> f)\<rparr>) else Inl OSError)"

subsection \<open>The function\<close>

text \<open>
  Lines 82 to 89: the image that is clustered, and its pixels, each byte divided by 255.0 in
  double precision.
\<close>

definition load_image :: "env \<Rightarrow> args \<Rightarrow> world \<Rightarrow> py_error + image" where
  "load_image e a w =
     (case Image_open w (image_path a) of
        Inl err \<Rightarrow> Inl err
      | Inr img \<Rightarrow>
          (case new_size (fst (img_size img)) (snd (img_size img)) (resize a) of
             Inl err \<Rightarrow> Inl err
           | Inr None \<Rightarrow> Inr img
           | Inr (Some sz) \<Rightarrow> img_resize e img sz))"

definition pixels_of :: "image \<Rightarrow> rgb list" where
  "pixels_of img =
     map (\<lambda>(r, g, b). (fl (real (unat r) / 255), fl (real (unat g) / 255),
                      fl (real (unat b) / 255)))
       (img_data img)"

text \<open>Lines 35 to 40: the paths of the figure and of the text file.\<close>

definition out_base :: "args \<Rightarrow> string" where
  "out_base a = fst (splitext (basename (image_path a)))"

definition out_dir :: "args \<Rightarrow> string" where
  "out_dir a = (case outdir a of None \<Rightarrow> dirname (image_path a) | Some d \<Rightarrow> d)"

definition fig_path :: "args \<Rightarrow> string" where
  "fig_path a = path_join (out_dir a) (out_base a @ ''_palette.png'')"

definition txt_path :: "args \<Rightarrow> string" where
  "txt_path a = path_join (out_dir a) (out_base a @ ''_palette.txt'')"

text \<open>Lines 145 to 206: printing, writing the text file, plotting and saving the figure.\<close>

definition report :: "env \<Rightarrow> args \<Rightarrow> image \<Rightarrow> entry list \<Rightarrow> world \<Rightarrow> py_error option \<times> world" where
  "report e a img results w =
     (let lines = (image_path a, n_colors a, results);
          w1 = w\<lparr>console := console w @ [lines]\<rparr>
      in case (if save a then write_file w1 (txt_path a) (TextFile lines) else Inr w1) of
           Inl err \<Rightarrow> (Some err, w1)
         | Inr w2 \<Rightarrow>
             if plot a then
               (case plt_draw e img results of
                  Inl err \<Rightarrow> (Some err, w2)
                | Inr fig \<Rightarrow>
                    (case (if save a then write_file w2 (fig_path a) (ImageFile fig) else Inr w2) of
                       Inl err \<Rightarrow> (Some err, w2)
                     | Inr w3 \<Rightarrow> (plt_show e fig, w3)))
             else (None, w2))"

text \<open>
  The whole function: the value returned or the exception raised, and the world afterwards.
  The clustering is called with \<open>n_init=10\<close> and \<open>random_state=42\<close>.
\<close>

definition extract_colorblind_safe_palette ::
    "env \<Rightarrow> args \<Rightarrow> world \<Rightarrow> (py_error + entry list) \<times> world" where
  "extract_colorblind_safe_palette e a w =
     (case load_image e a w of
        Inl err \<Rightarrow> (Inl err, w)
      | Inr img \<Rightarrow>
          (case KMeans e (n_colors a) 10 42 (pixels_of img) of
             Inl err \<Rightarrow> (Inl err, w)
           | Inr (labels, colors) \<Rightarrow>
               let results =
                     palette_results (rgb2lab e) (n_colors a) (deltaE_thresh a) labels colors
               in (case report e a img results w of
                     (Some err, w') \<Rightarrow> (Inl err, w')
                   | (None, w') \<Rightarrow> (Inr results, w'))))"

subsection \<open>Notions used in the statements\<close>

text \<open>
  The distance that line 118 computes for the colours \<open>i\<close> and \<open>j\<close> under one matrix.
\<close>

definition deltaE :: "(rgb \<Rightarrow> lab) \<Rightarrow> matrix \<Rightarrow> rgb list \<Rightarrow> nat \<Rightarrow> nat \<Rightarrow> real" where
  "deltaE to_lab mat colors i j =
     norm_diff (to_lab (simulate_cb (colors ! i) mat)) (to_lab (simulate_cb (colors ! j) mat))"

text \<open>The list \<open>results\<close> before it is sorted (lines 130 to 139).\<close>

definition unsorted_results :: "(rgb \<Rightarrow> lab) \<Rightarrow> nat \<Rightarrow> real \<Rightarrow> nat list \<Rightarrow> rgb list \<Rightarrow> entry list" where
  "unsorted_results to_lab n t labels colors =
     format_results colors (freqs n labels) (safe_flags to_lab t colors)"

text \<open>
  The conversion from sRGB to CIE L*a*b* under the illuminant D65, which is what the imaging
  library computes; the statements below hold for any conversion, and this one is used where
  a statement is evaluated on given colours.
\<close>

definition srgb_linear :: "real \<Rightarrow> real" where
  "srgb_linear c = (if 0.04045 < c then ((c + 0.055) / 1.055) powr 2.4 else c / 12.92)"

definition lab_f :: "real \<Rightarrow> real" where
  "lab_f t = (if 0.008856 < t then root 3 t else 7.787 * t + 16 / 116)"

definition rgb2lab_D65 :: "rgb \<Rightarrow> lab" where
  "rgb2lab_D65 c =
     (case c of (r, g, b) \<Rightarrow>
        let lin = (srgb_linear r, srgb_linear g, srgb_linear b);
            x = lab_f (dot3 lin (0.412453, 0.357580, 0.180423) / 0.95047);
            y = lab_f (dot3 lin (0.212671, 0.715160, 0.072169) / 1.0);
            z = lab_f (dot3 lin (0.019334, 0.119193, 0.950227) / 1.08883)
        in (116 * y - 16, 500 * (x - y), 200 * (y - z)))"

text \<open>
  What the statements assume of the clustering library when it returns, each on its own:
  there are \<open>n_clusters\<close> centres; there is a label, and every label is below \<open>n_clusters\<close>;
  the centres of samples that lie between 0 and 1 lie between 0 and 1 up to a thousandth (a
  centre is a mean of samples, computed in double precision, and may leave the interval by a
  rounding error).
\<close>

definition in_unit_cube :: "rgb \<Rightarrow> bool" where
  "in_unit_cube c = (case c of (r, g, b) \<Rightarrow> 0 \<le> r \<and> r \<le> 1 \<and> 0 \<le> g \<and> g \<le> 1 \<and> 0 \<le> b \<and> b \<le> 1)"

definition near_unit :: "real \<Rightarrow> bool" where
  "near_unit x = (- (1 / 1000) \<le> x \<and> x \<le> 1 + 1 / 1000)"

definition near_unit_cube :: "rgb \<Rightarrow> bool" where
  "near_unit_cube c = (case c of (r, g, b) \<Rightarrow> near_unit r \<and> near_unit g \<and> near_unit b)"

definition KMeans_n_centres :: "env \<Rightarrow> bool" where
  "KMeans_n_centres e =
     (\<forall>n n_init seed X labels centers.
        KMeans e n n_init seed X = Inr (labels, centers) \<longrightarrow> length centers = n)"

definition KMeans_labels :: "env \<Rightarrow> bool" where
  "KMeans_labels e =
     (\<forall>n n_init seed X labels centers.
        KMeans e n n_init seed X = Inr (labels, centers) \<longrightarrow>
          labels \<noteq> [] \<and> list_all (\<lambda>l. l < n) labels)"

definition KMeans_centres_near :: "env \<Rightarrow> bool" where
  "KMeans_centres_near e =
     (\<forall>n n_init seed X labels centers.
        KMeans e n n_init seed X = Inr (labels, centers) \<longrightarrow> list_all in_unit_cube X \<longrightarrow>
          list_all near_unit_cube centers)"


text \<open>Reading a colour back from \<open>#RRGGBB\<close>, upper case digits only.\<close>

definition hex_value :: "char \<Rightarrow> nat option" where
  "hex_value c = map_of (zip ''0123456789ABCDEF'' [0..<16]) c"

definition decode_byte :: "char \<Rightarrow> char \<Rightarrow> int option" where
  "decode_byte c d =
     (case (hex_value c, hex_value d) of
        (Some x, Some y) \<Rightarrow> Some (int (16 * x + y))
      | _ \<Rightarrow> None)"

definition decode_hex :: "string \<Rightarrow> (int \<times> int \<times> int) option" where
  "decode_hex s =
     (if length s = 7 \<and> s ! 0 = CHR ''#'' then
        (case (decode_byte (s ! 1) (s ! 2), decode_byte (s ! 3) (s ! 4), decode_byte (s ! 5) (s ! 6)) of
           (Some r, Some g, Some b) \<Rightarrow> Some (r, g, b)
         | _ \<Rightarrow> None)
      else None)"

definition is_hex_colour :: "string \<Rightarrow> bool" where
  "is_hex_colour s =
     (length s = 7 \<and> s ! 0 = CHR ''#'' \<and> list_all (\<lambda>c. c \<in> set ''0123456789ABCDEF'') (tl s))"

subsection \<open>A small world\<close>

text \<open>
  An image of two pixels, one black and one white, and a black image of 539 by 200 pixels, in
  a world that holds nothing else; libraries that cluster the two pixels into one cluster
  around the mean, or into two clusters of one pixel each.
\<close>

definition demo_image :: image where
  "demo_image = \<lparr>img_size = (2, 1), img_data = [(0, 0, 0), (255, 255, 255)]\<rparr>"

definition photo_image :: image where
  "photo_image = \<lparr>img_size = (539, 200), img_data = replicate (539 * 200) (0, 0, 0)\<rparr>"

definition demo_world :: world where
  "demo_world =
     \<lparr>fs = [''data/two.png'' \<mapsto> ImageFile demo_image,
            ''data/photo.png'' \<mapsto> ImageFile photo_image],
      writable = (\<lambda>p. True), console = []\<rparr>"

text \<open>Resizing by taking the nearest pixel; a size below 1 is refused.\<close>

definition demo_resize :: "image \<Rightarrow> int \<times> int \<Rightarrow> py_error + image" where
  "demo_resize img sz =
     (case sz of (w', h') \<Rightarrow>
        if w' < 1 \<or> h' < 1 then Inl ValueError
        else case img_size img of (w, h) \<Rightarrow>
          Inr \<lparr>img_size = (nat w', nat h'),
               img_data = concat (map (\<lambda>y. map (\<lambda>x. img_data img ! ((y * h div nat h') * w + x * w div nat w'))
                                            [0..<nat w']) [0..<nat h'])\<rparr>)"

definition demo_KMeans :: "nat \<Rightarrow> nat \<Rightarrow> nat \<Rightarrow> rgb list \<Rightarrow> py_error + nat list \<times> rgb list" where
  "demo_KMeans n n_init seed X =
     (if X = [(0, 0, 0), (1, 1, 1)] \<and> n = 1 then Inr ([0, 0], [(1 / 2, 1 / 2, 1 / 2)])
      else if X = [(0, 0, 0), (1, 1, 1)] \<and> n = 2 then Inr ([0, 1], [(0, 0, 0), (1, 1, 1)])
      else Inl ValueError)"

definition demo_env :: env where
  "demo_env =
     \<lparr>img_resize = demo_resize, KMeans = demo_KMeans, rgb2lab = rgb2lab_D65,
      plt_draw = (\<lambda>img results. Inr img), plt_show = (\<lambda>fig. None)\<rparr>"

definition demo_args :: args where
  "demo_args =
     \<lparr>image_path = ''data/two.png'', n_colors = 2, deltaE_thresh = 10, resize = 400,
      plot = False, save = False, outdir = None\<rparr>"

text \<open>
  Libraries that cluster as \<open>demo_env\<close> does when the seed is 42 and fail for any other seed,
  libraries whose drawing fails, and libraries whose black centre has left the unit cube by a
  rounding error.
\<close>

definition drift_KMeans :: "nat \<Rightarrow> nat \<Rightarrow> nat \<Rightarrow> rgb list \<Rightarrow> py_error + nat list \<times> rgb list" where
  "drift_KMeans n n_init seed X =
     (if X = [(0, 0, 0), (1, 1, 1)] \<and> n = 2
      then Inr ([0, 1], [(- (1 / 2 ^ 52), - (1 / 2 ^ 52), - (1 / 2 ^ 52)), (1, 1, 1)])
      else Inl ValueError)"

definition drift_env :: env where
  "drift_env = demo_env\<lparr>KMeans := drift_KMeans\<rparr>"

definition other_env :: env where
  "other_env =
     demo_env\<lparr>KMeans := (\<lambda>n n_init seed X. if seed = 42 then demo_KMeans n n_init seed X
                                       else Inl RuntimeError)\<rparr>"

definition no_display_env :: env where
  "no_display_env = demo_env\<lparr>plt_draw := (\<lambda>img results. Inl RuntimeError)\<rparr>"

text \<open>The call at the end of the script.\<close>

definition script :: "env \<Rightarrow> world \<Rightarrow> (py_error + entry list) \<times> world" where
  "script e w =
     extract_colorblind_safe_palette e
       \<lparr>image_path = ''data/flower.jpg'', n_colors = 8, deltaE_thresh = 10, resize = 400,
        plot = True, save = True, outdir = None\<rparr> w"

text \<open>A triple of integers from 0 to 255.\<close>

definition byte_triple :: "int \<times> int \<times> int \<Rightarrow> bool" where
  "byte_triple t = (case t of (r, g, b) \<Rightarrow> 0 \<le> r \<and> r \<le> 255 \<and> 0 \<le> g \<and> g \<le> 255 \<and> 0 \<le> b \<and> b \<le> 255)"

section \<open>Properties\<close>

subsection \<open>Double precision\<close>

declare fexp.simps [simp del]

lemma fexp_bounds:
  "0 < x \<Longrightarrow> 2 powi fexp x \<le> x \<and> x < 2 powi (fexp x + 1)"
proof (induction x rule: fexp.induct)
  case (1 x)
  show ?case
  proof (cases "x < 1")
    case True
    with "1.prems" have ih: "2 powi fexp (2 * x) \<le> 2 * x \<and> 2 * x < 2 powi (fexp (2 * x) + 1)"
      using "1.IH"(1) by simp
    have e: "fexp x = fexp (2 * x) - 1"
      using True "1.prems" by (simp add: fexp.simps [of x])
    have "(2::real) powi (fexp (2 * x) - 1) = 2 powi fexp (2 * x) / 2"
      by (simp add: power_int_diff)
    moreover have "(2::real) powi (fexp (2 * x) + 1) = 2 powi fexp (2 * x) * 2"
      by (simp add: power_int_add)
    ultimately show ?thesis using ih unfolding e by simp
  next
    case False
    show ?thesis
    proof (cases "2 \<le> x")
      case True
      with False "1.prems" have ih:
        "2 powi fexp (x / 2) \<le> x / 2 \<and> x / 2 < 2 powi (fexp (x / 2) + 1)"
        using "1.IH"(2) by simp
      have e: "fexp x = fexp (x / 2) + 1"
        using True False "1.prems" by (simp add: fexp.simps [of x])
      have "(2::real) powi (fexp (x / 2) + 1 + 1) = 2 powi (fexp (x / 2) + 1) * 2"
        "(2::real) powi (fexp (x / 2) + 1) = 2 powi (fexp (x / 2)) * 2"
        by (simp_all add: power_int_add)
      with ih show ?thesis by (simp add: e)
    next
      case F2: False
      with False "1.prems" have "fexp x = 0" by (simp add: fexp.simps [of x])
      with False F2 show ?thesis by simp
    qed
  qed
qed

lemma fexp_unique:
  assumes "2 powi e \<le> x" "x < 2 powi (e + 1)"
  shows "fexp x = e"
proof -
  have x: "0 < x" using assms(1) by (rule less_le_trans [rotated]) simp
  note b = fexp_bounds [OF x]
  have "\<not> fexp x < e"
  proof
    assume "fexp x < e"
    then have "fexp x + 1 \<le> e" by simp
    then have "(2::real) powi (fexp x + 1) \<le> 2 powi e" by (intro power_int_increasing) simp_all
    with b assms(1) show False by linarith
  qed
  moreover have "\<not> e < fexp x"
  proof
    assume "e < fexp x"
    then have "e + 1 \<le> fexp x" by simp
    then have "(2::real) powi (e + 1) \<le> 2 powi fexp x" by (intro power_int_increasing) simp_all
    with b assms(2) show False by linarith
  qed
  ultimately show ?thesis by simp
qed

lemma rint_error: "\<bar>of_int (rint x) - x\<bar> \<le> 1 / 2"
  unfolding rint_def Let_def by (auto simp: abs_if) linarith+

lemma rint_le: "x \<le> of_int n \<Longrightarrow> rint x \<le> n"
  unfolding rint_def Let_def
  by (auto simp: floor_le_iff)

lemma rint_ge: "of_int n \<le> x \<Longrightarrow> n \<le> rint x"
proof -
  assume "of_int n \<le> x"
  then have "n \<le> \<lfloor>x\<rfloor>" by (simp add: le_floor_iff)
  moreover have "\<lfloor>x\<rfloor> \<le> rint x" by (simp add: rint_def Let_def)
  ultimately show ?thesis by simp
qed

lemma rint_of_int: "rint (of_int n) = n"
  by (simp add: rint_def)

lemma fl_alt:
  "fl x = of_int (rint (x / 2 powi (fexp \<bar>x\<bar> - 52))) * 2 powi (fexp \<bar>x\<bar> - 52)"
  by (simp add: fl_def Let_def)

lemma fl_0: "fl 0 = 0"
  by (simp add: fl_alt rint_def)

lemma fl_eval:
  assumes "2 powi e \<le> \<bar>x\<bar>" "\<bar>x\<bar> < 2 powi (e + 1)"
  shows "fl x = of_int (rint (x / 2 powi (e - 52))) * 2 powi (e - 52)"
  by (simp add: fl_alt fexp_unique [OF assms])

lemma ulp_le:
  assumes "x \<noteq> 0"
  shows "2 powi (fexp \<bar>x\<bar> - 52) \<le> \<bar>x\<bar> / 2 ^ 52"
proof -
  have "0 < \<bar>x\<bar>" using assms by simp
  from fexp_bounds [OF this] have "2 powi fexp \<bar>x\<bar> \<le> \<bar>x\<bar>" by simp
  moreover have "(2::real) powi (fexp \<bar>x\<bar> - 52) = 2 powi fexp \<bar>x\<bar> / 2 ^ 52"
    by (simp add: power_int_diff)
  ultimately show ?thesis by (simp add: divide_right_mono)
qed

lemma fl_error: "\<bar>fl x - x\<bar> \<le> \<bar>x\<bar> / 2 ^ 53"
proof (cases "x = 0")
  case True
  then show ?thesis by (simp add: fl_0)
next
  case False
  define u :: real where "u = 2 powi (fexp \<bar>x\<bar> - 52)"
  have u: "0 < u" by (simp add: u_def)
  have "fl x - x = (of_int (rint (x / u)) - x / u) * u"
    using u by (simp add: fl_alt u_def [symmetric] algebra_simps)
  then have "\<bar>fl x - x\<bar> = \<bar>of_int (rint (x / u)) - x / u\<bar> * u"
    using u by (simp add: abs_mult)
  also have "\<dots> \<le> 1 / 2 * u"
    using u rint_error [of "x / u"] by (intro mult_right_mono) simp_all
  also have "\<dots> \<le> 1 / 2 * (\<bar>x\<bar> / 2 ^ 52)"
    using ulp_le [OF False] by (simp add: u_def)
  finally show ?thesis by simp
qed

lemma fl_nonneg: "0 \<le> x \<Longrightarrow> 0 \<le> fl x"
proof -
  assume x: "0 \<le> x"
  have "(0::real) \<le> of_int 0" by simp
  have "0 \<le> rint (x / 2 powi (fexp \<bar>x\<bar> - 52))"
    using x by (intro rint_ge) simp
  then show ?thesis by (simp add: fl_alt)
qed

lemma fl_ge_pow:
  assumes "0 < x"
  shows "2 powi fexp x \<le> fl x"
proof -
  define u :: real where "u = 2 powi (fexp x - 52)"
  have u: "0 < u" by (simp add: u_def)
  have p: "(2::real) powi fexp x = 2 ^ 52 * u"
    by (simp add: u_def power_int_diff)
  have "2 ^ 52 * u \<le> x" using fexp_bounds [OF assms] p by simp
  then have "of_int (2 ^ 52) \<le> x / u" using u by (simp add: le_divide_eq)
  then have "2 ^ 52 \<le> rint (x / u)" by (rule rint_ge)
  then have "of_int (2 ^ 52) \<le> (of_int (rint (x / u)) :: real)" by (simp only: of_int_le_iff)
  then have "2 ^ 52 * u \<le> of_int (rint (x / u)) * u"
    using u by (intro mult_right_mono) simp_all
  then show ?thesis using assms by (simp add: fl_alt u_def [symmetric] p)
qed

lemma fl_le_pow:
  assumes "0 < x"
  shows "fl x \<le> 2 powi (fexp x + 1)"
proof -
  define u :: real where "u = 2 powi (fexp x - 52)"
  have u: "0 < u" by (simp add: u_def)
  have p: "(2::real) powi (fexp x + 1) = 2 ^ 53 * u"
    by (simp add: u_def power_int_diff power_int_add)
  have "x \<le> 2 ^ 53 * u" using fexp_bounds [OF assms] p by simp
  then have "x / u \<le> of_int (2 ^ 53)" using u by (simp add: divide_le_eq)
  then have "rint (x / u) \<le> 2 ^ 53" by (rule rint_le)
  then have "(of_int (rint (x / u)) :: real) \<le> of_int (2 ^ 53)" by (simp only: of_int_le_iff)
  then have "of_int (rint (x / u)) * u \<le> 2 ^ 53 * u"
    using u by (intro mult_right_mono) simp_all
  then show ?thesis using assms by (simp add: fl_alt u_def [symmetric] p)
qed

lemma fl_ge_one:
  assumes "1 \<le> x"
  shows "1 \<le> fl x"
proof -
  have x: "0 < x" using assms by simp
  have "\<not> fexp x < 0"
  proof
    assume "fexp x < 0"
    then have "fexp x + 1 \<le> 0" by simp
    then have "(2::real) powi (fexp x + 1) \<le> 2 powi 0" by (intro power_int_increasing) simp_all
    with fexp_bounds [OF x] assms show False by simp
  qed
  then have "(2::real) powi 0 \<le> 2 powi fexp x" by (intro power_int_increasing) simp_all
  with fl_ge_pow [OF x] show ?thesis by simp
qed

lemma fl_le_one:
  assumes "0 \<le> x" "x < 1"
  shows "fl x \<le> 1"
proof (cases "x = 0")
  case True
  then show ?thesis by (simp add: fl_0)
next
  case False
  with assms have x: "0 < x" by simp
  have "\<not> 0 \<le> fexp x"
  proof
    assume "0 \<le> fexp x"
    then have "(2::real) powi 0 \<le> 2 powi fexp x" by (intro power_int_increasing) simp_all
    with fexp_bounds [OF x] assms show False by simp
  qed
  then have "fexp x + 1 \<le> 0" by simp
  then have "(2::real) powi (fexp x + 1) \<le> 2 powi 0" by (intro power_int_increasing) simp_all
  with fl_le_pow [OF x] show ?thesis by simp
qed

lemma fl_of_int:
  assumes "\<bar>n\<bar> < 2 ^ 53"
  shows "fl (of_int n) = of_int n"
proof (cases "n = 0")
  case True
  then show ?thesis by (simp add: fl_0)
next
  case False
  define e where "e = fexp \<bar>of_int n :: real\<bar>"
  have pos: "0 < \<bar>of_int n :: real\<bar>" using False by simp
  note b = fexp_bounds [OF pos, folded e_def]
  have "\<not> 53 \<le> e"
  proof
    assume "53 \<le> e"
    then have "(2::real) powi 53 \<le> 2 powi e" by (intro power_int_increasing) simp_all
    with b have "(2::real) ^ 53 \<le> \<bar>of_int n\<bar>" by simp
    then have "(of_int (2 ^ 53) :: real) \<le> of_int \<bar>n\<bar>" by simp
    then have "2 ^ 53 \<le> \<bar>n\<bar>" by (simp only: of_int_le_iff)
    with assms show False by simp
  qed
  then have e: "e \<le> 52" by simp
  have "(of_int n :: real) / 2 powi (e - 52) = of_int n * 2 powi (52 - e)"
    by (simp add: power_int_diff)
  also have "\<dots> = of_int n * 2 ^ nat (52 - e)"
    using e by (simp add: power_int_def)
  also have "\<dots> = of_int (n * 2 ^ nat (52 - e))" by simp
  finally have "rint (of_int n / 2 powi (e - 52)) = n * 2 ^ nat (52 - e)"
    by (simp only: rint_of_int)
  then have "fl (of_int n) = of_int (n * 2 ^ nat (52 - e)) * 2 powi (e - 52)"
    by (simp add: fl_alt e_def [symmetric])
  also have "\<dots> = of_int n * (2 powi (52 - e) * 2 powi (e - 52))"
    using e by (simp add: power_int_def)
  also have "(2::real) powi (52 - e) * 2 powi (e - 52) = 1"
    by (simp flip: power_int_add)
  finally show ?thesis by simp
qed

subsection \<open>The safety test\<close>

lemma j_loop_iff:
  "j_loop sl t i js \<longleftrightarrow> (\<forall>j\<in>set js. i \<noteq> j \<longrightarrow> \<not> norm_diff (sl ! i) (sl ! j) < t)"
  by (induction js) auto

lemma mat_loop_iff:
  assumes "i < length colors"
  shows "mat_loop L t colors i ms \<longleftrightarrow>
     (\<forall>m\<in>set ms. \<forall>j<length colors. j \<noteq> i \<longrightarrow> t \<le> deltaE L m colors i j)"
  using assms
  by (induction ms) (auto simp: j_loop_iff deltaE_def Let_def not_less)

lemma length_safe_flags: "length (safe_flags L t colors) = length colors"
  by (simp add: safe_flags_def)

lemma safe_flags_nth:
  assumes "i < length colors"
  shows "safe_flags L t colors ! i \<longleftrightarrow>
     (\<forall>m\<in>set cb_values. \<forall>j<length colors. j \<noteq> i \<longrightarrow> t \<le> deltaE L m colors i j)"
  using assms by (simp add: safe_flags_def mat_loop_iff)

lemma length_freqs: "length (freqs n labels) = n"
  by (simp add: freqs_def Let_def)

lemma length_format_results:
  "length (format_results colors frs flags) =
     min (length colors) (min (length frs) (length flags))"
  by (simp add: format_results_def)

lemma length_unsorted_results:
  "length (unsorted_results L n t labels colors) = min (length colors) n"
  by (simp add: unsorted_results_def length_format_results length_freqs length_safe_flags)

lemma format_results_nth:
  assumes "i < length colors" "i < length frs" "i < length flags"
  shows "format_results colors frs flags ! i = make_entry (colors ! i) (frs ! i) (flags ! i)"
  using assms by (simp add: format_results_def)

lemma make_entry_sel:
  "colorblind_safe (make_entry c f s) = s"
  "frequency (make_entry c f s) = round1 f"
  by (auto simp: make_entry_def Let_def split: prod.splits)

lemma unsorted_results_nth:
  assumes "i < length colors" "i < n"
  shows "unsorted_results L n t labels colors ! i =
     make_entry (colors ! i) (freqs n labels ! i) (safe_flags L t colors ! i)"
  using assms
  by (simp add: unsorted_results_def format_results_nth length_freqs length_safe_flags)

lemma palette_results_sort:
  "palette_results L n t labels colors =
     sort_key (\<lambda>x. - frequency x) (unsorted_results L n t labels colors)"
  by (simp add: palette_results_def unsorted_results_def)

lemma norm_diff_self: "norm_diff a a = 0"
  by (cases a) (simp add: norm_diff_def)

lemma norm_diff_commute: "norm_diff a b = norm_diff b a"
  by (cases a, cases b) (simp add: norm_diff_def power2_commute)

lemma deltaE_same: "colors ! i = colors ! j \<Longrightarrow> deltaE L m colors i j = 0"
  by (simp add: deltaE_def norm_diff_self)

lemma deltaE_commute: "deltaE L m colors i j = deltaE L m colors j i"
  by (simp add: deltaE_def norm_diff_commute)

lemma hd_cb_values: "hd cb_values \<in> set cb_values"
  by (simp add: cb_values_def CB_MATRICES_def)

text \<open>
  C1, as the code has it. For every cluster \<open>i\<close>, the flag of its entry is true if and only if,
  under every one of the three matrices, the distance between the simulated colour of \<open>i\<close>
  and that of every other cluster \<open>j\<close> is not below \<open>deltaE_thresh\<close> (it is at least the
  threshold); the loops that stop at the first collision compute this quantified property.
  The list returned holds these entries, reordered.
\<close>

theorem safe_flag_iff_no_collision:
  assumes "i < length colors" "i < n"
  shows "(colorblind_safe (unsorted_results L n t labels colors ! i) \<longleftrightarrow>
           (\<forall>m\<in>set cb_values. \<forall>j<length colors. j \<noteq> i \<longrightarrow> t \<le> deltaE L m colors i j)) \<and>
         mset (palette_results L n t labels colors) = mset (unsorted_results L n t labels colors)"
  using assms
  by (simp add: unsorted_results_nth make_entry_sel safe_flags_nth palette_results_sort)

theorem safe_flag_iff_no_collision_witness:
  "(colorblind_safe (unsorted_results rgb2lab_D65 2 10 [0, 1] [(0, 0, 0), (1, 1, 1)] ! 0) \<longleftrightarrow>
      (\<forall>m\<in>set cb_values. \<forall>j<length [(0, 0, 0), (1, 1, 1) :: rgb]. j \<noteq> 0 \<longrightarrow>
         10 \<le> deltaE rgb2lab_D65 m [(0, 0, 0), (1, 1, 1)] 0 j)) \<and>
   mset (palette_results rgb2lab_D65 2 10 [0, 1] [(0, 0, 0), (1, 1, 1)]) =
   mset (unsorted_results rgb2lab_D65 2 10 [0, 1] [(0, 0, 0), (1, 1, 1)])"
  using safe_flag_iff_no_collision [of 0 "[(0, 0, 0), (1, 1, 1)]" 2 rgb2lab_D65 10 "[0, 1]"]
  by simp

text \<open>
  C1 as it is written, with a distance that \<^emph>\<open>exceeds\<close> the threshold, fails where a distance
  equals the threshold: two clusters of the same colour, at distance 0, and a threshold of 0.
  The code leaves both flags true.
\<close>

theorem safe_flag_exceeds_counterexample:
  "\<not> (colorblind_safe (unsorted_results rgb2lab_D65 2 0 [0, 0] [(0, 0, 0), (0, 0, 0)] ! 0) \<longleftrightarrow>
        (\<forall>m\<in>set cb_values. \<forall>j<length [(0, 0, 0), (0, 0, 0) :: rgb]. j \<noteq> 0 \<longrightarrow>
           0 < deltaE rgb2lab_D65 m [(0, 0, 0), (0, 0, 0)] 0 j))"
proof -
  let ?cs = "[(0, 0, 0), (0, 0, 0)] :: rgb list"
  have d: "deltaE rgb2lab_D65 m ?cs i j = 0" if "i < 2" "j < 2" for m i j
    using that by (intro deltaE_same) (simp add: nth_Cons')
  have "safe_flags rgb2lab_D65 0 ?cs ! 0"
    by (simp add: safe_flags_nth d less_Suc_eq)
  then have l: "colorblind_safe (unsorted_results rgb2lab_D65 2 0 [0, 0] ?cs ! 0)"
    by (simp add: unsorted_results_nth make_entry_sel)
  have "\<not> (\<forall>m\<in>set cb_values. \<forall>j<length ?cs. j \<noteq> 0 \<longrightarrow> 0 < deltaE rgb2lab_D65 m ?cs 0 j)"
  proof
    assume "\<forall>m\<in>set cb_values. \<forall>j<length ?cs. j \<noteq> 0 \<longrightarrow> 0 < deltaE rgb2lab_D65 m ?cs 0 j"
    with hd_cb_values have "0 < deltaE rgb2lab_D65 (hd cb_values) ?cs 0 1" by simp
    then show False by (simp add: d)
  qed
  with l show ?thesis by blast
qed

text \<open>
  C9. If the distance between two distinct clusters \<open>i\<close> and \<open>j\<close> is below the threshold
  under some matrix, the entries of both are marked unsafe.
\<close>

theorem unsafe_symmetric:
  assumes "i < length colors" "j < length colors" "i < n" "j < n" "i \<noteq> j"
    and "m \<in> set cb_values" "deltaE L m colors i j < t"
  shows "\<not> colorblind_safe (unsorted_results L n t labels colors ! i) \<and>
         \<not> colorblind_safe (unsorted_results L n t labels colors ! j)"
proof -
  have "\<not> safe_flags L t colors ! i"
    using assms by (auto simp: safe_flags_nth not_le)
  moreover have "deltaE L m colors j i < t"
    using assms(7) by (simp add: deltaE_commute)
  then have "\<not> safe_flags L t colors ! j"
    using assms(1-6) by (auto simp: safe_flags_nth not_le)
  ultimately show ?thesis
    using assms(1-4) by (simp add: unsorted_results_nth make_entry_sel)
qed

theorem unsafe_symmetric_witness:
  "\<not> colorblind_safe (unsorted_results rgb2lab_D65 2 10 [0, 0] [(0, 0, 0), (0, 0, 0)] ! 0) \<and>
   \<not> colorblind_safe (unsorted_results rgb2lab_D65 2 10 [0, 0] [(0, 0, 0), (0, 0, 0)] ! 1)"
proof -
  have "deltaE rgb2lab_D65 (hd cb_values) [(0, 0, 0), (0, 0, 0)] 0 1 < 10"
    by (simp add: deltaE_same)
  then show ?thesis
    using unsafe_symmetric [of 0 "[(0, 0, 0), (0, 0, 0)]" 1 2 "hd cb_values" rgb2lab_D65 10 "[0, 0]"]
      hd_cb_values
    by simp
qed

subsection \<open>What the function returns\<close>

lemma extract_returns:
  assumes "fst (extract_colorblind_safe_palette e a w) = Inr res"
  obtains img labels colors where
    "load_image e a w = Inr img"
    "KMeans e (n_colors a) 10 42 (pixels_of img) = Inr (labels, colors)"
    "res = palette_results (rgb2lab e) (n_colors a) (deltaE_thresh a) labels colors"
  using assms
  by (auto simp: extract_colorblind_safe_palette_def Let_def
      split: sum.splits prod.splits option.splits)

lemma fl_1: "fl 1 = 1"
  using fl_of_int [of 1] by simp

lemma fl_unit:
  assumes "0 \<le> x" "x \<le> 1"
  shows "0 \<le> fl x \<and> fl x \<le> 1"
proof (cases "x = 1")
  case True
  then show ?thesis by (simp add: fl_1)
next
  case False
  with assms have "x < 1" by simp
  with assms(1) show ?thesis by (simp add: fl_nonneg fl_le_one)
qed

lemma byte_unit:
  "0 \<le> fl (real (unat (x :: 8 word)) / 255) \<and> fl (real (unat x) / 255) \<le> 1"
proof -
  have "unat x < 2 ^ LENGTH(8)" by (rule unsigned_less)
  then have "unat x \<le> 255" by simp
  then have "real (unat x) \<le> real 255" by (rule iffD2 [OF of_nat_le_iff])
  moreover have "0 \<le> real (unat x)" by (rule of_nat_0_le_iff)
  ultimately have "0 \<le> real (unat x) / 255" "real (unat x) / 255 \<le> 1"
    by (simp_all del: of_nat_unat)
  then show ?thesis by (rule fl_unit)
qed

lemma pixels_in_unit_cube: "list_all in_unit_cube (pixels_of img)"
  using byte_unit
  by (auto simp: pixels_of_def list_all_iff in_unit_cube_def simp del: of_nat_unat)

lemma length_palette_results:
  "length (palette_results L n t labels colors) = min (length colors) n"
  by (simp add: palette_results_sort length_unsorted_results)

lemma new_size_keep:
  assumes "0 < max iw ih" "real (max iw ih) \<le> r"
  shows "new_size iw ih r = Inr None"
proof -
  have "1 \<le> r / real (max iw ih)"
    using assms by (simp add: le_divide_eq)
  then have "1 \<le> fl (r / real (max iw ih))" by (rule fl_ge_one)
  moreover have "0 < iw \<or> 0 < ih"
    using assms(1) by (auto simp: max_def split: if_splits)
  ultimately show ?thesis by (simp add: new_size_def Let_def not_less)
qed

text \<open>
  C2. Whenever the function returns, with a clustering library that returns as many centres
  as it was asked for, the list returned has exactly \<open>n_colors\<close> entries, whatever labels the
  pixels received (a cluster without pixels keeps its entry).
\<close>

theorem returns_n_colors_entries:
  assumes "KMeans_n_centres e" "fst (extract_colorblind_safe_palette e a w) = Inr res"
  shows "length res = n_colors a"
proof -
  from assms(2) obtain img labels colors where
    k: "KMeans e (n_colors a) 10 42 (pixels_of img) = Inr (labels, colors)" and
    r: "res = palette_results (rgb2lab e) (n_colors a) (deltaE_thresh a) labels colors"
    by (rule extract_returns)
  from assms(1) k have "length colors = n_colors a"
    unfolding KMeans_n_centres_def by blast
  then show ?thesis by (simp add: r length_palette_results)
qed

lemma demo_n_centres: "KMeans_n_centres demo_env"
  by (auto simp: KMeans_n_centres_def demo_env_def demo_KMeans_def split: if_splits)

lemma demo_labels: "KMeans_labels demo_env"
  by (auto simp: KMeans_labels_def demo_env_def demo_KMeans_def split: if_splits)

lemma demo_centres_near: "KMeans_centres_near demo_env"
  by (auto simp: KMeans_centres_near_def demo_env_def demo_KMeans_def near_unit_cube_def
      near_unit_def split: if_splits)

lemma demo_pixels: "pixels_of demo_image = [(0, 0, 0), (1, 1, 1)]"
  by (simp add: pixels_of_def demo_image_def fl_0 fl_1)

lemma demo_load: "load_image demo_env demo_args demo_world = Inr demo_image"
proof -
  have "new_size 2 1 400 = Inr None" by (rule new_size_keep) simp_all
  then show ?thesis
    by (simp add: load_image_def Image_open_def demo_world_def demo_args_def demo_image_def)
qed

lemma load_image_args:
  assumes "image_path a' = image_path a" "resize a' = resize a"
  shows "load_image e a' w = load_image e a w"
  unfolding load_image_def assms ..

lemma load_image_cong:
  assumes "fs w' = fs w" "img_resize e' = img_resize e"
  shows "load_image e' a w' = load_image e a w"
  using assms by (simp add: load_image_def Image_open_def split: sum.splits option.splits)

lemma demo_run:
  "fst (extract_colorblind_safe_palette demo_env demo_args demo_world) =
     Inr (palette_results rgb2lab_D65 2 10 [0, 1] [(0, 0, 0), (1, 1, 1)])"
  by (simp add: extract_colorblind_safe_palette_def demo_load demo_pixels)
     (simp add: demo_env_def demo_args_def demo_KMeans_def report_def Let_def)

theorem returns_n_colors_entries_witness:
  "length (palette_results rgb2lab_D65 2 10 [0, 1] [(0, 0, 0), (1, 1, 1)]) = 2"
  using returns_n_colors_entries [OF demo_n_centres demo_run] by (simp add: demo_args_def)

subsection \<open>Frequencies\<close>

lemma sum_counts:
  assumes "list_all (\<lambda>l. l < n) labels"
  shows "(\<Sum>i\<leftarrow>[0..<n]. real (counts labels i)) = real (length labels)"
  using assms
proof (induction labels)
  case Nil
  then show ?case by (simp add: counts_def)
next
  case (Cons l labels)
  have "(\<Sum>i\<leftarrow>[0..<n]. real (counts (l # labels) i)) =
        (\<Sum>i\<leftarrow>[0..<n]. real (counts labels i) + (if l = i then 1 else 0))"
    by (rule arg_cong [where f = sum_list]) (simp add: counts_def)
  also have "\<dots> = (\<Sum>i\<leftarrow>[0..<n]. real (counts labels i)) + (\<Sum>i\<leftarrow>[0..<n]. if l = i then 1 else 0)"
    by (simp add: sum_list_addf)
  also have "(\<Sum>i\<leftarrow>[0..<n]. if l = i then 1 else 0) = (1 :: real)"
    using Cons.prems by (simp add: interv_sum_list_conv_sum_set_nat)
  finally show ?case using Cons by simp
qed

text \<open>The exact percentages, which the frequencies approximate, sum to 100.\<close>

lemma sum_percent:
  assumes "list_all (\<lambda>l. l < n) labels" "labels \<noteq> []"
  shows "(\<Sum>i\<leftarrow>[0..<n]. real (counts labels i) / real (length labels) * 100) = 100"
proof -
  have "(\<Sum>i\<leftarrow>[0..<n]. real (counts labels i) / real (length labels) * 100) =
        (\<Sum>i\<leftarrow>[0..<n]. real (counts labels i) * (100 / real (length labels)))"
    by simp
  also have "\<dots> = (\<Sum>i\<leftarrow>[0..<n]. real (counts labels i)) * (100 / real (length labels))"
    by (rule sum_list_mult_const)
  also have "\<dots> = 100"
    using assms(2) by (simp add: sum_counts [OF assms(1)])
  finally show ?thesis .
qed

lemma freqs_eq:
  assumes "list_all (\<lambda>l. l < n) labels"
  shows "freqs n labels =
     map (\<lambda>i. fl (fl (real (counts labels i) / real (length labels)) * 100)) [0..<n]"
  using sum_counts [OF assms] by (simp add: freqs_def Let_def comp_def)

lemma counts_le: "counts labels i \<le> length labels"
  by (simp add: counts_def count_le_length)

lemma fl_close:
  assumes "\<bar>x\<bar> \<le> B"
  shows "\<bar>fl x - x\<bar> \<le> B / 2 ^ 53"
proof -
  have "\<bar>fl x - x\<bar> \<le> \<bar>x\<bar> / 2 ^ 53" by (rule fl_error)
  also have "\<dots> \<le> B / 2 ^ 53" using assms by (rule divide_right_mono) simp
  finally show ?thesis .
qed

lemma rint_nonneg: "0 \<le> x \<Longrightarrow> 0 \<le> rint x"
  using rint_ge [of 0 x] by simp

text \<open>
  One frequency: from the exact quotient \<open>q\<close> of a count and the number of pixels to the
  value in the entry, which is within a tenth of the exact percentage.
\<close>

lemma frequency_error:
  assumes "0 \<le> q" "q \<le> 1"
  shows "0 \<le> round1 (fl (fl q * 100))"
    and "\<bar>round1 (fl (fl q * 100)) - q * 100\<bar> \<le> 1 / 10"
proof -
  define eps :: real where "eps = 1 / 2 ^ 53"
  have eps: "0 < eps" "eps \<le> 1 / 100000" by (simp_all add: eps_def)
  have close: "\<bar>fl x - x\<bar> \<le> B * eps" if "\<bar>x\<bar> \<le> B" for x B
    using fl_close [OF that] by (simp add: eps_def)
  define a where "a = fl q"
  define b where "b = fl (a * 100)"
  define z where "z = fl (b * 10)"
  define k where "k = rint z"
  define r where "r = fl (of_int k / 10)"
  have r: "round1 (fl (fl q * 100)) = r"
    by (simp add: round1_def r_def k_def z_def b_def a_def)
  have a0: "0 \<le> a" "a \<le> 1"
    using fl_unit [OF assms] by (simp_all add: a_def)
  have "\<bar>q\<bar> \<le> 1" using assms by simp
  from close [OF this] have a1: "\<bar>a - q\<bar> \<le> 1 * eps" by (simp add: a_def)
  have "\<bar>a * 100\<bar> \<le> 100" using a0 by simp
  from close [OF this] have b1: "\<bar>b - a * 100\<bar> \<le> 100 * eps"
    by (simp add: b_def)
  have b0: "0 \<le> b" using a0 by (simp add: b_def fl_nonneg)
  have b2: "\<bar>b - q * 100\<bar> \<le> 200 * eps"
    using a1 b1 by linarith
  have b3: "b \<le> 101" using b2 assms eps by linarith
  have "\<bar>b * 10\<bar> \<le> 1010" using b0 b3 by linarith
  from close [OF this] have z1: "\<bar>z - b * 10\<bar> \<le> 1010 * eps"
    by (simp add: z_def)
  have z0: "0 \<le> z" using b0 by (simp add: z_def fl_nonneg)
  have k1: "\<bar>of_int k - z\<bar> \<le> 1 / 2" unfolding k_def by (rule rint_error)
  have k0: "0 \<le> k" using z0 by (simp add: k_def rint_nonneg)
  define c :: real where "c = of_int k / 10"
  have c0: "0 \<le> c" using k0 by (simp add: c_def)
  have "of_int k = c * 10" by (simp add: c_def)
  with z1 k1 have c1: "\<bar>c - b\<bar> \<le> 1 / 20 + 101 * eps"
    by linarith
  have "\<bar>c\<bar> \<le> 102" using c1 b0 b3 c0 eps by linarith
  from close [OF this] have r1: "\<bar>r - c\<bar> \<le> 102 * eps"
    by (simp add: r_def c_def)
  have "0 \<le> r" using c0 by (simp add: r_def c_def [symmetric] fl_nonneg)
  then show "0 \<le> round1 (fl (fl q * 100))" by (simp add: r)
  have "\<bar>r - q * 100\<bar> \<le> 1 / 10"
    using r1 c1 b2 eps by linarith
  then show "\<bar>round1 (fl (fl q * 100)) - q * 100\<bar> \<le> 1 / 10" by (simp add: r)
qed

lemma sum_list_close:
  fixes f g :: "'a \<Rightarrow> real"
  assumes "\<forall>x\<in>set xs. \<bar>f x - g x\<bar> \<le> c"
  shows "\<bar>sum_list (map f xs) - sum_list (map g xs)\<bar> \<le> real (length xs) * c"
  using assms
proof (induction xs)
  case Nil
  then show ?case by simp
next
  case (Cons x xs)
  then have "\<bar>f x - g x\<bar> \<le> c" "\<bar>sum_list (map f xs) - sum_list (map g xs)\<bar> \<le> real (length xs) * c"
    by simp_all
  then have "\<bar>(f x + sum_list (map f xs)) - (g x + sum_list (map g xs))\<bar>
      \<le> c + real (length xs) * c"
    by linarith
  then show ?case by (simp add: algebra_simps)
qed

lemma map_frequency_format:
  assumes "length colors = length frs" "length flags = length frs"
  shows "map frequency (format_results colors frs flags) = map round1 frs"
proof (rule nth_equalityI)
  show "length (map frequency (format_results colors frs flags)) = length (map round1 frs)"
    using assms by (simp add: length_format_results)
  fix i assume "i < length (map frequency (format_results colors frs flags))"
  then have "i < length frs" using assms by (simp add: length_format_results)
  then show "map frequency (format_results colors frs flags) ! i = map round1 frs ! i"
    using assms by (simp add: length_format_results format_results_nth make_entry_sel)
qed

lemma map_frequency_unsorted:
  assumes "length colors = n"
  shows "map frequency (unsorted_results L n t labels colors) = map round1 (freqs n labels)"
  using assms
  by (simp add: unsorted_results_def map_frequency_format length_freqs length_safe_flags)

lemma sum_list_sort_key:
  fixes f :: "'a \<Rightarrow> real"
  shows "sum_list (map f (sort_key k xs)) = sum_list (map f xs)"
proof -
  have "sum_mset (image_mset f (mset (sort_key k xs))) = sum_mset (image_mset f (mset xs))"
    by simp
  then show ?thesis by (simp only: flip: mset_map sum_mset_sum_list)
qed

lemma palette_frequencies:
  assumes "length colors = n" "list_all (\<lambda>l. l < n) labels" "labels \<noteq> []"
  shows "\<forall>r\<in>set (palette_results L n t labels colors). 0 \<le> frequency r"
    and "\<bar>(\<Sum>r\<leftarrow>palette_results L n t labels colors. frequency r) - 100\<bar> \<le> real n * (1 / 10)"
proof -
  let ?q = "\<lambda>i. real (counts labels i) / real (length labels)"
  let ?r = "\<lambda>i. round1 (fl (fl (?q i) * 100))"
  have q: "0 \<le> ?q i" "?q i \<le> 1" for i
    using assms(3) counts_le [of labels i] by (simp_all add: divide_le_eq)
  have f: "map frequency (unsorted_results L n t labels colors) = map ?r [0..<n]"
    by (simp add: map_frequency_unsorted [OF assms(1)] freqs_eq [OF assms(2)] comp_def)
  have "frequency ` set (palette_results L n t labels colors) = set (map ?r [0..<n])"
    unfolding f [symmetric] by (simp add: palette_results_sort)
  moreover have "0 \<le> x" if "x \<in> set (map ?r [0..<n])" for x
    using that frequency_error(1) [OF q] by auto
  ultimately show "\<forall>r\<in>set (palette_results L n t labels colors). 0 \<le> frequency r"
    by blast
  have "(\<Sum>r\<leftarrow>palette_results L n t labels colors. frequency r) = sum_list (map ?r [0..<n])"
    by (simp add: palette_results_sort sum_list_sort_key f)
  moreover have "\<bar>sum_list (map ?r [0..<n]) - sum_list (map (\<lambda>i. ?q i * 100) [0..<n])\<bar>
      \<le> real (length [0..<n]) * (1 / 10)"
  proof (rule sum_list_close, rule ballI)
    fix i
    show "\<bar>?r i - ?q i * 100\<bar> \<le> 1 / 10" by (rule frequency_error(2) [OF q])
  qed
  ultimately show
    "\<bar>(\<Sum>r\<leftarrow>palette_results L n t labels colors. frequency r) - 100\<bar> \<le> real n * (1 / 10)"
    using sum_percent [OF assms(2,3)] by simp
qed

text \<open>
  C3. Whenever the function returns, with a clustering library that returns \<open>n_colors\<close>
  centres and gives every pixel a label below \<open>n_colors\<close>, every frequency is non-negative,
  and the sum of the frequencies differs from 100 by at most 0.1 for each entry (each
  frequency is a percentage of the number of pixels, computed and rounded to one decimal in
  double precision).
\<close>

theorem frequencies_nonneg_sum_100:
  assumes "KMeans_n_centres e" "KMeans_labels e"
    and "fst (extract_colorblind_safe_palette e a w) = Inr res"
  shows "(\<forall>r\<in>set res. 0 \<le> frequency r) \<and>
         \<bar>(\<Sum>r\<leftarrow>res. frequency r) - 100\<bar> \<le> real (length res) * (1 / 10)"
proof -
  from assms(3) obtain img labels colors where
    k: "KMeans e (n_colors a) 10 42 (pixels_of img) = Inr (labels, colors)" and
    r: "res = palette_results (rgb2lab e) (n_colors a) (deltaE_thresh a) labels colors"
    by (rule extract_returns)
  from assms(1) k have c: "length colors = n_colors a"
    unfolding KMeans_n_centres_def by blast
  from assms(2) k have l: "list_all (\<lambda>l. l < n_colors a) labels" "labels \<noteq> []"
    unfolding KMeans_labels_def by blast+
  have len: "length res = n_colors a"
    using c by (simp add: r length_palette_results)
  have "\<bar>(\<Sum>r\<leftarrow>res. frequency r) - 100\<bar> \<le> real (n_colors a) * (1 / 10)"
    unfolding r by (rule palette_frequencies(2) [OF c l])
  moreover have "\<forall>r\<in>set res. 0 \<le> frequency r"
    unfolding r by (rule palette_frequencies(1) [OF c l])
  ultimately show ?thesis by (simp add: len)
qed

theorem frequencies_nonneg_sum_100_witness:
  "list_all (\<lambda>r. 0 \<le> frequency r) (palette_results rgb2lab_D65 2 10 [0, 1] [(0, 0, 0), (1, 1, 1)]) \<and>
   \<bar>(\<Sum>r\<leftarrow>palette_results rgb2lab_D65 2 10 [0, 1] [(0, 0, 0), (1, 1, 1)]. frequency r) - 100\<bar>
     \<le> real (length (palette_results rgb2lab_D65 2 10 [0, 1] [(0, 0, 0), (1, 1, 1)])) * (1 / 10)"
  using frequencies_nonneg_sum_100 [OF demo_n_centres demo_labels demo_run]
  unfolding list_all_iff .

text \<open>
  A frequency where double precision and exact arithmetic part: 23 pixels of 80 are 28.75
  per cent, which the code computes as 28.749999999999996 and rounds to 28.7.
\<close>

lemma frequency_23_of_80: "round1 (fl (fl (23 / 80) * 100)) = fl (287 / 10)"
proof -
  have a: "fl (23 / 80) = 2589569785738035 / 9007199254740992"
    by (subst fl_eval [where e = "- 2"]) (simp_all add: power_int_minus rint_def Let_def)
  have b: "fl (2589569785738035 / 9007199254740992 * 100) = 8092405580431359 / 281474976710656"
    by (subst fl_eval [where e = 4]) (simp_all add: power_int_minus rint_def Let_def)
  have z: "fl (8092405580431359 / 281474976710656 * 10) = 5057753487769599 / 17592186044416"
    by (subst fl_eval [where e = 8]) (simp_all add: power_int_minus rint_def Let_def)
  have k: "rint (5057753487769599 / 17592186044416) = 287"
    by (simp add: rint_def Let_def)
  show ?thesis unfolding round1_def a b z k by simp
qed

subsection \<open>One colour\<close>

lemma fl_100: "fl 100 = 100"
  using fl_of_int [of 100] by simp

lemma fl_1000: "fl 1000 = 1000"
  using fl_of_int [of 1000] by simp

lemma round1_100: "round1 100 = 100"
proof -
  have "rint 1000 = 1000" using rint_of_int [of 1000] by simp
  then show ?thesis by (simp add: round1_def fl_1000 fl_100)
qed

lemma freqs_one:
  assumes "list_all (\<lambda>l. l < 1) labels" "labels \<noteq> []"
  shows "freqs 1 labels = [100]"
proof -
  have "counts labels 0 = length labels"
    using sum_counts [OF assms(1)] by simp
  moreover have "length labels \<noteq> 0" using assms(2) by simp
  ultimately have q: "real (counts labels 0) / real (length labels) = 1" by simp
  have "fl (fl (real (counts labels 0) / real (length labels)) * 100) = 100"
    unfolding q by (simp add: fl_1 fl_100)
  moreover have "[0..<1] = [0]" by simp
  ultimately show ?thesis unfolding freqs_eq [OF assms(1)] by simp
qed

lemma safe_flags_one: "safe_flags L t [c] = [True]"
proof -
  have "safe_flags L t [c] ! 0" by (simp add: safe_flags_nth)
  moreover have "length (safe_flags L t [c]) = 1" by (simp add: length_safe_flags)
  ultimately show ?thesis by (cases "safe_flags L t [c]") auto
qed

lemma palette_results_one:
  assumes "length colors = 1" "list_all (\<lambda>l. l < 1) labels" "labels \<noteq> []"
  shows "palette_results L 1 t labels colors = [make_entry (hd colors) 100 True]"
proof -
  obtain c where c: "colors = [c]"
    using assms(1) by (cases colors) auto
  show ?thesis
    unfolding c palette_results_def freqs_one [OF assms(2,3)] safe_flags_one format_results_def
    by simp
qed

text \<open>
  C10. With \<open>n_colors = 1\<close>, whenever the function returns, with a clustering library that
  returns one centre and gives every pixel the label 0, it returns one entry, which is marked
  safe and has the frequency 100.
\<close>

theorem single_colour_safe_100:
  assumes "KMeans_n_centres e" "KMeans_labels e"
    and "fst (extract_colorblind_safe_palette e a w) = Inr res" "n_colors a = 1"
  shows "\<exists>x. res = [x] \<and> colorblind_safe x \<and> frequency x = 100"
proof -
  from assms(3) obtain img labels colors where
    k: "KMeans e (n_colors a) 10 42 (pixels_of img) = Inr (labels, colors)" and
    r: "res = palette_results (rgb2lab e) (n_colors a) (deltaE_thresh a) labels colors"
    by (rule extract_returns)
  from assms(1) k have "length colors = n_colors a"
    unfolding KMeans_n_centres_def by blast
  moreover from assms(2) k have "list_all (\<lambda>l. l < n_colors a) labels" "labels \<noteq> []"
    unfolding KMeans_labels_def by blast+
  ultimately have l: "length colors = 1" "list_all (\<lambda>l. l < 1) labels" "labels \<noteq> []"
    unfolding assms(4) .
  have "res = [make_entry (hd colors) 100 True]"
    unfolding r assms(4) by (rule palette_results_one [OF l])
  then show ?thesis by (simp add: make_entry_sel round1_100)
qed

lemma demo_run_one:
  "fst (extract_colorblind_safe_palette demo_env (demo_args\<lparr>n_colors := 1\<rparr>) demo_world) =
     Inr (palette_results rgb2lab_D65 1 10 [0, 0] [(1 / 2, 1 / 2, 1 / 2)])"
proof -
  have "load_image demo_env (demo_args\<lparr>n_colors := 1\<rparr>) demo_world =
      load_image demo_env demo_args demo_world"
    by (rule load_image_args) simp_all
  then have "load_image demo_env (demo_args\<lparr>n_colors := 1\<rparr>) demo_world = Inr demo_image"
    by (simp only: demo_load)
  then show ?thesis
    by (simp add: extract_colorblind_safe_palette_def demo_pixels)
       (simp add: demo_env_def demo_args_def demo_KMeans_def report_def Let_def)
qed

theorem single_colour_safe_100_witness:
  "\<exists>x. palette_results rgb2lab_D65 1 10 [0, 0] [(1 / 2, 1 / 2, 1 / 2)] = [x] \<and>
       colorblind_safe x \<and> frequency x = 100"
  using single_colour_safe_100 [OF demo_n_centres demo_labels demo_run_one]
  by (simp add: demo_args_def)

subsection \<open>The hexadecimal string\<close>

lemma hex_table:
  "list_all (\<lambda>d. hex_value (hex_digit d) = Some d \<and> hex_digit d \<in> set ''0123456789ABCDEF'')
     [0..<16]"
  by code_simp

lemma hex_digit_props:
  assumes "d < 16"
  shows "hex_value (hex_digit d) = Some d \<and> hex_digit d \<in> set ''0123456789ABCDEF''"
proof -
  have "d \<in> set [0..<16]" using assms by simp
  then show ?thesis by (rule hex_table [unfolded list_all_iff, THEN bspec])
qed

lemmas hex_value_digit = hex_digit_props [THEN conjunct1]

lemmas hex_digit_upper = hex_digit_props [THEN conjunct2]

lemma to_hex_byte:
  assumes "n < 256"
  shows "replicate (2 - length (to_hex n)) (CHR ''0'') @ to_hex n =
     [hex_digit (n div 16), hex_digit (n mod 16)]"
proof (cases "n < 16")
  case True
  then show ?thesis by (simp add: hex_digit_def)
next
  case False
  with assms have "n div 16 < 16" by simp
  with False show ?thesis by (simp add: to_hex.simps [of n] to_hex.simps [of "n div 16"])
qed

lemma format_02X_byte:
  assumes "0 \<le> v" "v \<le> 255"
  shows "format_02X v = [hex_digit (nat v div 16), hex_digit (nat v mod 16)]"
proof -
  have "nat v < 256" using assms by simp
  from to_hex_byte [OF this] show ?thesis
    using assms by (simp add: format_02X_def Let_def)
qed

lemma decode_format_byte:
  assumes "0 \<le> v" "v \<le> 255"
  shows "decode_byte (hex_digit (nat v div 16)) (hex_digit (nat v mod 16)) = Some v"
proof -
  have "nat v div 16 < 16" "nat v mod 16 < 16" using assms by auto
  then show ?thesis
    using assms by (simp add: decode_byte_def hex_value_digit)
qed

lemma astype_int_byte:
  assumes "near_unit x"
  shows "0 \<le> astype_int (fl (x * 255))" "astype_int (fl (x * 255)) \<le> 255"
proof -
  have "\<bar>x * 255\<bar> \<le> 256" using assms by (simp add: near_unit_def abs_le_iff)
  from fl_close [OF this] have "\<bar>fl (x * 255) - x * 255\<bar> \<le> 1 / 2" by simp
  moreover have "- (255 / 1000) \<le> x * 255" "x * 255 \<le> 255 + 255 / 1000"
    using assms by (simp_all add: near_unit_def)
  ultimately have "- 1 < fl (x * 255)" "fl (x * 255) < 256" by linarith+
  then show "0 \<le> astype_int (fl (x * 255))" "astype_int (fl (x * 255)) \<le> 255"
    by (auto simp: astype_int_def floor_le_iff ceiling_le_iff le_ceiling_iff)
qed

lemma make_entry_rgb:
  assumes "near_unit_cube c"
  shows "byte_triple (rgb (make_entry c f s))"
  using assms
  by (auto simp: make_entry_def near_unit_cube_def byte_triple_def Let_def astype_int_byte)

lemma make_entry_hex:
  assumes "near_unit_cube c"
  shows "is_hex_colour (hex (make_entry c f s))"
    and "decode_hex (hex (make_entry c f s)) = Some (rgb (make_entry c f s))"
proof -
  obtain r g b where c: "c = (r, g, b)" by (cases c)
  define r' g' b' where "r' = astype_int (fl (r * 255))" and "g' = astype_int (fl (g * 255))"
    and "b' = astype_int (fl (b * 255))"
  have rng: "0 \<le> r'" "r' \<le> 255" "0 \<le> g'" "g' \<le> 255" "0 \<le> b'" "b' \<le> 255"
    using assms by (simp_all add: c near_unit_cube_def r'_def g'_def b'_def astype_int_byte)
  have h: "hex (make_entry c f s) =
      [CHR ''#'', hex_digit (nat r' div 16), hex_digit (nat r' mod 16),
       hex_digit (nat g' div 16), hex_digit (nat g' mod 16),
       hex_digit (nat b' div 16), hex_digit (nat b' mod 16)]"
    using rng
    by (simp add: make_entry_def c Let_def r'_def [symmetric] g'_def [symmetric]
        b'_def [symmetric] format_02X_byte)
  have e: "rgb (make_entry c f s) = (r', g', b')"
    by (simp add: make_entry_def c Let_def r'_def g'_def b'_def)
  have d: "nat r' div 16 < 16" "nat r' mod 16 < 16" "nat g' div 16 < 16" "nat g' mod 16 < 16"
    "nat b' div 16 < 16" "nat b' mod 16 < 16"
    using rng by auto
  show "is_hex_colour (hex (make_entry c f s))"
    unfolding h is_hex_colour_def using d by (simp add: hex_digit_upper del: set_simps)
  show "decode_hex (hex (make_entry c f s)) = Some (rgb (make_entry c f s))"
    unfolding h e decode_hex_def using rng by (simp add: decode_format_byte)
qed

lemma centres_near:
  assumes "KMeans_centres_near e" "KMeans e n k s (pixels_of img) = Inr (labels, colors)"
  shows "list_all near_unit_cube colors"
  using assms pixels_in_unit_cube [of img] unfolding KMeans_centres_near_def by blast

lemma format_results_entries:
  assumes "r \<in> set (format_results colors frs flags)"
  obtains c f s where "c \<in> set colors" "r = make_entry c f s"
  using assms by (auto simp: format_results_def dest: set_zip_leftD)

lemma palette_results_entries:
  assumes "r \<in> set (palette_results L n t labels colors)"
  obtains c f s where "c \<in> set colors" "r = make_entry c f s"
  using assms by (auto simp: palette_results_def elim: format_results_entries)

text \<open>
  C4. Whenever the function returns, with a clustering library whose centres lie between 0
  and 1 up to a thousandth, the \<open>hex\<close> string of every entry is \<open>#\<close> followed by six upper
  case hexadecimal digits, and reading its three pairs of digits back gives the \<open>rgb\<close> triple
  of the entry.
\<close>

theorem hex_encodes_rgb:
  assumes "KMeans_centres_near e" "fst (extract_colorblind_safe_palette e a w) = Inr res"
  shows "\<forall>r\<in>set res. is_hex_colour (hex r) \<and> decode_hex (hex r) = Some (rgb r)"
proof
  fix r assume r: "r \<in> set res"
  from assms(2) obtain img labels colors where
    k: "KMeans e (n_colors a) 10 42 (pixels_of img) = Inr (labels, colors)" and
    p: "res = palette_results (rgb2lab e) (n_colors a) (deltaE_thresh a) labels colors"
    by (rule extract_returns)
  from r obtain c f s where c: "c \<in> set colors" "r = make_entry c f s"
    unfolding p by (rule palette_results_entries)
  have "near_unit_cube c"
    using centres_near [OF assms(1) k] c(1) by (simp add: list_all_iff)
  then show "is_hex_colour (hex r) \<and> decode_hex (hex r) = Some (rgb r)"
    unfolding c(2) by (simp add: make_entry_hex)
qed

text \<open>
  A centre that has left the unit cube by a rounding error, as the black centre of a black
  and white image does: its bytes are 0.
\<close>

lemma drift_centres_near: "KMeans_centres_near drift_env"
  by (auto simp: KMeans_centres_near_def drift_env_def drift_KMeans_def near_unit_cube_def
      near_unit_def split: if_splits)

lemma drift_run:
  "fst (extract_colorblind_safe_palette drift_env demo_args demo_world) =
     Inr (palette_results rgb2lab_D65 2 10 [0, 1]
            [(- (1 / 2 ^ 52), - (1 / 2 ^ 52), - (1 / 2 ^ 52)), (1, 1, 1)])"
proof -
  have "load_image drift_env demo_args demo_world = load_image demo_env demo_args demo_world"
    by (rule load_image_cong) (simp_all add: drift_env_def)
  then have "load_image drift_env demo_args demo_world = Inr demo_image"
    by (simp only: demo_load)
  then show ?thesis
    by (simp add: extract_colorblind_safe_palette_def demo_pixels)
       (simp add: drift_env_def demo_env_def demo_args_def drift_KMeans_def report_def Let_def)
qed

lemma drift_byte: "astype_int (fl (- (1 / 2 ^ 52) * 255)) = 0"
proof -
  have "fl (- (1 / 2 ^ 52) * 255) = - (255 / 2 ^ 52)"
    by (subst fl_eval [where e = "- 45"]) (simp_all add: power_int_minus rint_def Let_def)
  then show ?thesis by (simp add: astype_int_def)
qed

lemma drift_hex:
  "hex (make_entry (- (1 / 2 ^ 52), - (1 / 2 ^ 52), - (1 / 2 ^ 52)) f s) = ''#000000''"
  unfolding make_entry_def prod.case Let_def drift_byte
  by (simp add: format_02X_def hex_digit_def)

theorem hex_encodes_rgb_witness:
  "list_all (\<lambda>r. is_hex_colour (hex r) \<and> decode_hex (hex r) = Some (rgb r))
     (palette_results rgb2lab_D65 2 10 [0, 1] [(0, 0, 0), (1, 1, 1)]) \<and>
   list_all (\<lambda>r. is_hex_colour (hex r) \<and> decode_hex (hex r) = Some (rgb r))
     (palette_results rgb2lab_D65 2 10 [0, 1]
        [(- (1 / 2 ^ 52), - (1 / 2 ^ 52), - (1 / 2 ^ 52)), (1, 1, 1)])"
  using hex_encodes_rgb [OF demo_centres_near demo_run]
    hex_encodes_rgb [OF drift_centres_near drift_run]
  unfolding list_all_iff by blast

subsection \<open>The list returned\<close>

lemma load_image_settings:
  "load_image e (a\<lparr>save := s, plot := p\<rparr>) w = load_image e a w"
  by (rule load_image_args) simp_all

lemma sorted_palette_results:
  "sorted_wrt (\<lambda>x y. frequency y \<le> frequency x) (palette_results L n t labels colors)"
proof -
  have "sorted (map (\<lambda>x. - frequency x) (palette_results L n t labels colors))"
    by (simp add: palette_results_def)
  then show ?thesis by (simp add: sorted_map)
qed

lemma mset_palette_results:
  "mset (palette_results L n t labels colors) = mset (unsorted_results L n t labels colors)"
  by (simp add: palette_results_sort)

text \<open>
  C7. Whenever the function returns a list, with a clustering library that returns
  \<open>n_colors\<close> centres, which lie between 0 and 1 up to a thousandth: the list has \<open>n_colors\<close>
  entries, which are the entries made in lines 131 to 139 for the clusters, reordered; the
  function returns that list for every setting of \<open>save\<close> and \<open>plot\<close> under which it returns;
  every entry has the four fields of the record \<open>entry\<close>, its \<open>rgb\<close> is a triple of integers
  from 0 to 255 and its \<open>frequency\<close> is the double nearest to a whole number of tenths; the
  list is in descending order of \<open>frequency\<close>.
\<close>

theorem returns_sorted_entries:
  assumes "KMeans_n_centres e" "KMeans_centres_near e"
    and "fst (extract_colorblind_safe_palette e a w) = Inr res"
  shows "length res = n_colors a \<and>
         (\<exists>img labels colors.
            load_image e a w = Inr img \<and>
            KMeans e (n_colors a) 10 42 (pixels_of img) = Inr (labels, colors) \<and>
            mset res =
              mset (unsorted_results (rgb2lab e) (n_colors a) (deltaE_thresh a) labels colors)) \<and>
         (\<forall>s p res'. fst (extract_colorblind_safe_palette e (a\<lparr>save := s, plot := p\<rparr>) w) = Inr res'
            \<longrightarrow> res' = res) \<and>
         (\<forall>r\<in>set res. byte_triple (rgb r) \<and> (\<exists>k::int. frequency r = fl (of_int k / 10))) \<and>
         sorted_wrt (\<lambda>x y. frequency y \<le> frequency x) res"
proof -
  from assms(3) obtain img labels colors where
    l: "load_image e a w = Inr img" and
    k: "KMeans e (n_colors a) 10 42 (pixels_of img) = Inr (labels, colors)" and
    p: "res = palette_results (rgb2lab e) (n_colors a) (deltaE_thresh a) labels colors"
    by (rule extract_returns)
  from assms(1) k have "length colors = n_colors a"
    unfolding KMeans_n_centres_def by blast
  then have 1: "length res = n_colors a"
    by (simp add: p length_palette_results)
  have "mset res =
      mset (unsorted_results (rgb2lab e) (n_colors a) (deltaE_thresh a) labels colors)"
    unfolding p by (rule mset_palette_results)
  with l k have 2: "\<exists>img labels colors.
      load_image e a w = Inr img \<and>
      KMeans e (n_colors a) 10 42 (pixels_of img) = Inr (labels, colors) \<and>
      mset res =
        mset (unsorted_results (rgb2lab e) (n_colors a) (deltaE_thresh a) labels colors)"
    by blast
  have "res' = res"
    if "fst (extract_colorblind_safe_palette e (a\<lparr>save := s, plot := q\<rparr>) w) = Inr res'"
    for s q res'
  proof -
    from that obtain img' labels' colors' where
      "load_image e (a\<lparr>save := s, plot := q\<rparr>) w = Inr img'"
      "KMeans e (n_colors (a\<lparr>save := s, plot := q\<rparr>)) 10 42 (pixels_of img') = Inr (labels', colors')"
      "res' = palette_results (rgb2lab e) (n_colors (a\<lparr>save := s, plot := q\<rparr>))
         (deltaE_thresh (a\<lparr>save := s, plot := q\<rparr>)) labels' colors'"
      by (rule extract_returns)
    then show ?thesis using l k p by (simp add: load_image_settings)
  qed
  then have 3: "\<forall>s p res'.
      fst (extract_colorblind_safe_palette e (a\<lparr>save := s, plot := p\<rparr>) w) = Inr res' \<longrightarrow> res' = res"
    by blast
  have "byte_triple (rgb r) \<and> (\<exists>k::int. frequency r = fl (of_int k / 10))"
    if "r \<in> set res" for r
  proof -
    from that obtain c f s where c: "c \<in> set colors" "r = make_entry c f s"
      unfolding p by (rule palette_results_entries)
    have "near_unit_cube c"
      using centres_near [OF assms(2) k] c(1) by (simp add: list_all_iff)
    then have "byte_triple (rgb r)" unfolding c(2) by (rule make_entry_rgb)
    moreover have "frequency r = fl (of_int (rint (fl (f * 10))) / 10)"
      by (simp add: c(2) make_entry_sel round1_def)
    ultimately show ?thesis by blast
  qed
  then have 4: "\<forall>r\<in>set res. byte_triple (rgb r) \<and> (\<exists>k::int. frequency r = fl (of_int k / 10))"
    by blast
  have 5: "sorted_wrt (\<lambda>x y. frequency y \<le> frequency x) res"
    unfolding p by (rule sorted_palette_results)
  from 1 2 3 4 5 show ?thesis by blast
qed

lemma demo_run_saving:
  "\<exists>res'. fst (extract_colorblind_safe_palette demo_env (demo_args\<lparr>save := True, plot := True\<rparr>)
      demo_world) = Inr res'"
proof -
  have "load_image demo_env (demo_args\<lparr>save := True, plot := True\<rparr>) demo_world = Inr demo_image"
    using demo_load by (simp add: load_image_settings)
  then show ?thesis
    by (simp add: extract_colorblind_safe_palette_def demo_pixels)
       (simp add: demo_env_def demo_args_def demo_KMeans_def report_def Let_def write_file_def
          demo_world_def)
qed

theorem returns_sorted_entries_witness:
  "length (palette_results rgb2lab_D65 2 10 [0, 1] [(0, 0, 0), (1, 1, 1)]) = 2 \<and>
   mset (palette_results rgb2lab_D65 2 10 [0, 1] [(0, 0, 0), (1, 1, 1)]) =
     mset (unsorted_results rgb2lab_D65 2 10 [0, 1] [(0, 0, 0), (1, 1, 1)]) \<and>
   fst (extract_colorblind_safe_palette demo_env (demo_args\<lparr>save := True, plot := True\<rparr>) demo_world)
     = Inr (palette_results rgb2lab_D65 2 10 [0, 1] [(0, 0, 0), (1, 1, 1)]) \<and>
   list_all (\<lambda>r. byte_triple (rgb r) \<and> (\<exists>k::int. frequency r = fl (of_int k / 10)))
     (palette_results rgb2lab_D65 2 10 [0, 1] [(0, 0, 0), (1, 1, 1)]) \<and>
   sorted_wrt (\<lambda>x y. frequency y \<le> frequency x)
     (palette_results rgb2lab_D65 2 10 [0, 1] [(0, 0, 0), (1, 1, 1)])"
proof -
  let ?P = "palette_results rgb2lab_D65 2 10 [0, 1] [(0, 0, 0), (1, 1, 1)]"
  note t = returns_sorted_entries [OF demo_n_centres demo_centres_near demo_run]
  have n: "n_colors demo_args = 2" "deltaE_thresh demo_args = 10" "rgb2lab demo_env = rgb2lab_D65"
    by (simp_all add: demo_args_def demo_env_def)
  from t have 1: "length ?P = 2" by (simp add: n)
  from t obtain img labels colors where
    "load_image demo_env demo_args demo_world = Inr img"
    "KMeans demo_env (n_colors demo_args) 10 42 (pixels_of img) = Inr (labels, colors)"
    "mset ?P = mset (unsorted_results (rgb2lab demo_env) (n_colors demo_args)
       (deltaE_thresh demo_args) labels colors)"
    by blast
  then have 2: "mset ?P = mset (unsorted_results rgb2lab_D65 2 10 [0, 1] [(0, 0, 0), (1, 1, 1)])"
    by (simp add: demo_load demo_pixels n) (simp add: demo_env_def demo_KMeans_def)
  from t demo_run_saving have 3:
    "fst (extract_colorblind_safe_palette demo_env (demo_args\<lparr>save := True, plot := True\<rparr>)
       demo_world) = Inr ?P"
    by blast
  from t have 4: "list_all (\<lambda>r. byte_triple (rgb r) \<and> (\<exists>k::int. frequency r = fl (of_int k / 10))) ?P"
    unfolding list_all_iff by blast
  from t have 5: "sorted_wrt (\<lambda>x y. frequency y \<le> frequency x) ?P" by blast
  from 1 2 3 4 5 show ?thesis by blast
qed

subsection \<open>Resizing\<close>











subsection \<open>Calling twice\<close>

lemma report_quiet:
  assumes "\<not> save a" "\<not> plot a"
  shows "report e a img results w =
     (None, w\<lparr>console := console w @ [(image_path a, n_colors a, results)]\<rparr>)"
  using assms by (simp add: report_def Let_def)

lemma extract_quiet:
  assumes "\<not> save a" "\<not> plot a"
  shows "fs (snd (extract_colorblind_safe_palette e a w)) = fs w"
    and "fst (extract_colorblind_safe_palette e a w) =
      (case load_image e a w of
         Inl err \<Rightarrow> Inl err
       | Inr img \<Rightarrow>
           (case KMeans e (n_colors a) 10 42 (pixels_of img) of
              Inl err \<Rightarrow> Inl err
            | Inr (labels, colors) \<Rightarrow>
                Inr (palette_results (rgb2lab e) (n_colors a) (deltaE_thresh a) labels colors)))"
  by (auto simp: extract_colorblind_safe_palette_def report_quiet [OF assms] Let_def
      split: sum.splits prod.splits)

text \<open>
  C6. With \<open>save\<close> and \<open>plot\<close> off, a second call with the same arguments, in the world that
  the first call left, returns what the first call returned (or raises what it raised), for
  any libraries that resize and convert as before and cluster as before when called with
  \<open>n_init=10\<close> and \<open>random_state=42\<close>.
\<close>

theorem repeated_call_same_result:
  assumes "\<not> save a" "\<not> plot a"
    and "\<forall>n X. KMeans e' n 10 42 X = KMeans e n 10 42 X"
    and "img_resize e' = img_resize e" "rgb2lab e' = rgb2lab e"
  shows "fst (extract_colorblind_safe_palette e' a (snd (extract_colorblind_safe_palette e a w))) =
         fst (extract_colorblind_safe_palette e a w)"
proof -
  let ?w' = "snd (extract_colorblind_safe_palette e a w)"
  have "fs ?w' = fs w" by (rule extract_quiet(1) [OF assms(1,2)])
  then have "load_image e' a ?w' = load_image e a w"
    using assms(4) by (rule load_image_cong)
  then show ?thesis
    using assms(3,5)
    by (simp add: extract_quiet(2) [OF assms(1,2)] split: sum.splits prod.splits)
qed

theorem repeated_call_same_result_witness:
  "fst (extract_colorblind_safe_palette other_env demo_args
          (snd (extract_colorblind_safe_palette demo_env demo_args demo_world))) =
   fst (extract_colorblind_safe_palette demo_env demo_args demo_world)"
proof -
  have "\<not> save demo_args" "\<not> plot demo_args"
    by (simp_all add: demo_args_def)
  moreover have "\<forall>n X. KMeans other_env n 10 42 X = KMeans demo_env n 10 42 X"
    by (simp add: other_env_def demo_env_def)
  moreover have "img_resize other_env = img_resize demo_env" "rgb2lab other_env = rgb2lab demo_env"
    by (simp_all add: other_env_def)
  ultimately show ?thesis by (rule repeated_call_same_result)
qed

subsection \<open>Failures and files\<close>

lemma extract_load_fails:
  assumes "Image_open w (image_path a) = Inl err"
  shows "extract_colorblind_safe_palette e a w = (Inl err, w)"
  using assms by (simp add: extract_colorblind_safe_palette_def load_image_def)

lemma report_draw_fails:
  assumes "save a" "plot a" "writable w (txt_path a)" "plt_draw e img results = Inl err"
  shows "fst (report e a img results w) = Some err"
    and "fs (snd (report e a img results w)) =
      (fs w)(txt_path a \<mapsto> TextFile (image_path a, n_colors a, results))"
  using assms by (simp_all add: report_def Let_def write_file_def)

lemma report_savefig_fails:
  assumes "save a" "plot a" "writable w (txt_path a)" "plt_draw e img results = Inr fig"
    and "\<not> writable w (fig_path a)"
  shows "fst (report e a img results w) = Some OSError"
    and "fs (snd (report e a img results w)) =
      (fs w)(txt_path a \<mapsto> TextFile (image_path a, n_colors a, results))"
  using assms by (simp_all add: report_def Let_def write_file_def)

lemma extract_report:
  assumes "load_image e a w = Inr img"
    and "KMeans e (n_colors a) 10 42 (pixels_of img) = Inr (labels, colors)"
    and "fst (report e a img
           (palette_results (rgb2lab e) (n_colors a) (deltaE_thresh a) labels colors) w) = Some err"
  shows "fst (extract_colorblind_safe_palette e a w) = Inl err"
    and "snd (extract_colorblind_safe_palette e a w) =
      snd (report e a img
        (palette_results (rgb2lab e) (n_colors a) (deltaE_thresh a) labels colors) w)"
proof -
  let ?res = "palette_results (rgb2lab e) (n_colors a) (deltaE_thresh a) labels colors"
  obtain w' where rw: "report e a img ?res w = (Some err, w')"
    using assms(3) by (cases "report e a img ?res w") auto
  show "fst (extract_colorblind_safe_palette e a w) = Inl err"
    by (simp add: extract_colorblind_safe_palette_def assms(1,2) rw)
  show "snd (extract_colorblind_safe_palette e a w) = snd (report e a img ?res w)"
    by (simp add: extract_colorblind_safe_palette_def assms(1,2) rw)
qed

text \<open>
  C8. If the image cannot be opened, the exception is what the call raises and the world is
  as it was: nothing has been written. If the image is loaded and clustered, \<open>save\<close> and
  \<open>plot\<close> are on and the text file can be written, and then the drawing raises, or the figure
  cannot be written, the call raises that exception and the text file has been written all the
  same (and nothing else).
\<close>

theorem load_failure_writes_nothing:
  "(Image_open w (image_path a) = Inl err \<longrightarrow>
      extract_colorblind_safe_palette e a w = (Inl err, w)) \<and>
   (load_image e a w = Inr img \<and>
    KMeans e (n_colors a) 10 42 (pixels_of img) = Inr (labels, colors) \<and>
    save a \<and> plot a \<and> writable w (txt_path a) \<and>
    (plt_draw e img (palette_results (rgb2lab e) (n_colors a) (deltaE_thresh a) labels colors)
       = Inl err' \<or>
     plt_draw e img (palette_results (rgb2lab e) (n_colors a) (deltaE_thresh a) labels colors)
       = Inr fig \<and> \<not> writable w (fig_path a) \<and> err' = OSError) \<longrightarrow>
      fst (extract_colorblind_safe_palette e a w) = Inl err' \<and>
      fs (snd (extract_colorblind_safe_palette e a w)) =
        (fs w)(txt_path a \<mapsto> TextFile (image_path a, n_colors a,
           palette_results (rgb2lab e) (n_colors a) (deltaE_thresh a) labels colors)))"
proof (intro conjI impI)
  assume "Image_open w (image_path a) = Inl err"
  then show "extract_colorblind_safe_palette e a w = (Inl err, w)"
    by (rule extract_load_fails)
next
  let ?res = "palette_results (rgb2lab e) (n_colors a) (deltaE_thresh a) labels colors"
  assume h: "load_image e a w = Inr img \<and>
    KMeans e (n_colors a) 10 42 (pixels_of img) = Inr (labels, colors) \<and>
    save a \<and> plot a \<and> writable w (txt_path a) \<and>
    (plt_draw e img ?res = Inl err' \<or>
     plt_draw e img ?res = Inr fig \<and> \<not> writable w (fig_path a) \<and> err' = OSError)"
  then have r: "fst (report e a img ?res w) = Some err' \<and>
    fs (snd (report e a img ?res w)) = (fs w)(txt_path a \<mapsto> TextFile (image_path a, n_colors a, ?res))"
    by (auto simp: report_draw_fails report_savefig_fails)
  from h r show "fst (extract_colorblind_safe_palette e a w) = Inl err'"
    by (simp add: extract_report(1))
  from h r show "fs (snd (extract_colorblind_safe_palette e a w)) =
      (fs w)(txt_path a \<mapsto> TextFile (image_path a, n_colors a, ?res))"
    by (simp add: extract_report(2) [where err = err'])
qed

lemma demo_paths:
  "txt_path demo_args = ''data/two_palette.txt''"
  "fig_path demo_args = ''data/two_palette.png''"
  by (simp_all add: txt_path_def fig_path_def out_dir_def out_base_def demo_args_def dirname_def
      basename_def splitext_def path_join_def Let_def)

theorem load_failure_writes_nothing_witness:
  "extract_colorblind_safe_palette demo_env (demo_args\<lparr>image_path := ''data/none.png''\<rparr>) demo_world
     = (Inl FileNotFoundError, demo_world) \<and>
   fst (extract_colorblind_safe_palette no_display_env (demo_args\<lparr>plot := True, save := True\<rparr>)
          demo_world) = Inl RuntimeError \<and>
   fs (snd (extract_colorblind_safe_palette no_display_env (demo_args\<lparr>plot := True, save := True\<rparr>)
          demo_world)) =
     (fs demo_world)(''data/two_palette.txt'' \<mapsto>
        TextFile (''data/two.png'', 2,
          palette_results rgb2lab_D65 2 10 [0, 1] [(0, 0, 0), (1, 1, 1)]))"
proof -
  let ?a = "demo_args\<lparr>plot := True, save := True\<rparr>"
  have "Image_open demo_world (image_path (demo_args\<lparr>image_path := ''data/none.png''\<rparr>))
      = Inl FileNotFoundError"
    by (simp add: Image_open_def demo_world_def)
  with load_failure_writes_nothing [of demo_world "demo_args\<lparr>image_path := ''data/none.png''\<rparr>" FileNotFoundError demo_env]
  have 1: "extract_colorblind_safe_palette demo_env (demo_args\<lparr>image_path := ''data/none.png''\<rparr>)
      demo_world = (Inl FileNotFoundError, demo_world)"
    by blast
  have "load_image no_display_env ?a demo_world = load_image demo_env ?a demo_world"
    by (rule load_image_cong) (simp_all add: no_display_env_def)
  also have "\<dots> = load_image demo_env demo_args demo_world"
    by (rule load_image_args) simp_all
  finally have l: "load_image no_display_env ?a demo_world = Inr demo_image"
    by (simp only: demo_load)
  have k: "KMeans no_display_env (n_colors ?a) 10 42 (pixels_of demo_image)
      = Inr ([0, 1], [(0, 0, 0), (1, 1, 1)])"
    by (simp add: no_display_env_def demo_env_def demo_args_def demo_KMeans_def demo_pixels)
  have p: "txt_path ?a = ''data/two_palette.txt''"
    using demo_paths(1) by (simp add: txt_path_def out_dir_def out_base_def demo_args_def)
  have s: "save ?a" "plot ?a" "writable demo_world (txt_path ?a)"
    by (simp_all add: demo_world_def)
  have d: "plt_draw no_display_env demo_image
      (palette_results (rgb2lab no_display_env) (n_colors ?a) (deltaE_thresh ?a) [0, 1]
         [(0, 0, 0), (1, 1, 1)]) = Inl RuntimeError"
    by (simp add: no_display_env_def)
  have v: "rgb2lab no_display_env = rgb2lab_D65" "n_colors ?a = 2" "deltaE_thresh ?a = 10"
    "image_path ?a = ''data/two.png''"
    by (simp_all add: no_display_env_def demo_env_def demo_args_def)
  from load_failure_writes_nothing [of demo_world ?a _ no_display_env demo_image "[0, 1]" "[(0, 0, 0), (1, 1, 1)]"
      RuntimeError] l k s d
  have "fst (extract_colorblind_safe_palette no_display_env ?a demo_world) = Inl RuntimeError \<and>
      fs (snd (extract_colorblind_safe_palette no_display_env ?a demo_world)) =
        (fs demo_world)(txt_path ?a \<mapsto> TextFile (image_path ?a, n_colors ?a,
           palette_results (rgb2lab no_display_env) (n_colors ?a) (deltaE_thresh ?a) [0, 1]
             [(0, 0, 0), (1, 1, 1)]))"
    by blast
  then have 2: "fst (extract_colorblind_safe_palette no_display_env ?a demo_world) = Inl RuntimeError \<and>
      fs (snd (extract_colorblind_safe_palette no_display_env ?a demo_world)) =
        (fs demo_world)(''data/two_palette.txt'' \<mapsto> TextFile (''data/two.png'', 2,
           palette_results rgb2lab_D65 2 10 [0, 1] [(0, 0, 0), (1, 1, 1)]))"
    by (simp only: p v)
  from 1 2 show ?thesis by blast
qed

end
